theory Spec2Isabelle
  imports Main "HOL-Library.AList"
begin

section \<open>Audio transcription service: model of \<open>main.py\<close>\<close>

text \<open>
  The service keeps a process-wide registry \<open>models\<close> of lazily loaded transcription
  models, and handles each upload by writing it to a scratch file, calling the model on
  that file and removing the file again.  The external collaborators (the model loader,
  the temporary-file module, the upload stream, the model's \<open>transcribe\<close>, the
  file system and \<open>time.sleep\<close>) are not part of the program.  Their answers are
  supplied by a \<open>world\<close> record, and what the program does to them is recorded in the
  state: the set of existing paths, a counter of loader calls and a trace of effects.
  Log messages are not modelled.  A request is handled from its first statement to its
  last without another request running in between.
\<close>

subsection \<open>Python values and exceptions\<close>

text \<open>
  An instance of \<open>Exception\<close>: its class name and the text that \<open>str(e)\<close> yields.
\<close>

datatype pyexc = PyExc (exc_class: string) (str_of: string)

text \<open>
  What can be raised inside the \<open>try\<close> statement of the handler: an instance of
  \<open>Exception\<close>, or \<open>asyncio.CancelledError\<close>, which derives from \<open>BaseException\<close>
  and not from \<open>Exception\<close>.  The latter is thrown into a task at an \<open>await\<close> at which
  the task is suspended; the only such place in the handler is \<open>await file.read()\<close>.
\<close>

datatype raised = Raised pyexc | CancelledError

text \<open>
  The values a transcription result is built from.  A float is either finite
  (mantissa and binary exponent) or one of the special values.
\<close>

datatype pyfloat = Finite int int | NaN | Infinity bool

datatype pyval =
    PNone
  | PBool bool
  | PInt int
  | PFloat pyfloat
  | PStr string
  | PList "pyval list"
  | PDict "(string \<times> pyval) list"

type_synonym pydict = "(string \<times> pyval) list"

text \<open>The decimal digits of a natural number, as \<open>str\<close> writes them.\<close>

fun digits_of :: "nat \<Rightarrow> string" where
  "digits_of n =
     (if n < 10 then [char_of (48 + n)]
      else digits_of (n div 10) @ [char_of (48 + n mod 10)])"

declare digits_of.simps [simp del]

text \<open>
  The JSON encoder that the response class runs on its content, with \<open>allow_nan=False\<close>.
  It walks the value in order and raises at the first place it cannot encode:
  \<^item> a float that is not finite (\<open>ValueError\<close>);
  \<^item> an int whose decimal form has more digits than the interpreter converts to a string
    (\<open>ValueError\<close>; the limit is 4300 unless changed, it is never set below 640, and 0
    switches it off);
  \<^item> a list or dictionary nested deeper than the interpreter's recursion limit leaves
    room for (\<open>RecursionError\<close>).
  \<open>encode_error limit depth v\<close> is the exception raised for \<open>v\<close>, or \<open>None\<close> when \<open>v\<close>
  is encoded; \<open>depth\<close> is the number of nested containers that can still be entered.
\<close>

definition out_of_range :: pyexc where
  "out_of_range = PyExc ''ValueError'' ''Out of range float values are not JSON compliant''"

definition int_too_long :: "nat \<Rightarrow> pyexc" where
  "int_too_long limit =
     PyExc ''ValueError''
       (''Exceeds the limit ('' @ digits_of limit @ '' digits) for integer string conversion; ''
        @ ''use sys.set_int_max_str_digits() to increase the limit'')"

definition too_deep :: pyexc where
  "too_deep =
     PyExc ''RecursionError'' ''maximum recursion depth exceeded while encoding a JSON object''"

fun encode_error :: "nat \<Rightarrow> nat \<Rightarrow> pyval \<Rightarrow> pyexc option"
  and encode_error_list :: "nat \<Rightarrow> nat \<Rightarrow> pyval list \<Rightarrow> pyexc option"
  and encode_error_items :: "nat \<Rightarrow> nat \<Rightarrow> (string \<times> pyval) list \<Rightarrow> pyexc option" where
  "encode_error limit depth PNone = None"
| "encode_error limit depth (PBool b) = None"
| "encode_error limit depth (PInt i) =
     (if 0 < limit \<and> limit < length (digits_of (nat \<bar>i\<bar>)) then Some (int_too_long limit)
      else None)"
| "encode_error limit depth (PFloat (Finite m e)) = None"
| "encode_error limit depth (PFloat NaN) = Some out_of_range"
| "encode_error limit depth (PFloat (Infinity b)) = Some out_of_range"
| "encode_error limit depth (PStr t) = None"
| "encode_error limit depth (PList xs) =
     (if depth = 0 then Some too_deep else encode_error_list limit (depth - 1) xs)"
| "encode_error limit depth (PDict kvs) =
     (if depth = 0 then Some too_deep else encode_error_items limit (depth - 1) kvs)"
| "encode_error_list limit depth [] = None"
| "encode_error_list limit depth (x # xs) =
     (case encode_error limit depth x of
        Some e \<Rightarrow> Some e
      | None \<Rightarrow> encode_error_list limit depth xs)"
| "encode_error_items limit depth [] = None"
| "encode_error_items limit depth ((k, v) # kvs) =
     (case encode_error limit depth v of
        Some e \<Rightarrow> Some e
      | None \<Rightarrow> encode_error_items limit depth kvs)"

text \<open>\<open>', '.join(xs)\<close>\<close>

fun join :: "string \<Rightarrow> string list \<Rightarrow> string" where
  "join sep [] = []"
| "join sep [x] = x"
| "join sep (x # y # ys) = x @ sep @ join sep (y # ys)"

subsection \<open>State, effects and the world\<close>

datatype handle = Handle nat

datatype event =
    EvLoad string
  | EvSleep nat
  | EvCreate string
  | EvTranscribe "handle option" string
  | EvUnlink string

text \<open>
  \<open>models\<close> is the module-level dictionary, in insertion order.  \<open>fs\<close> holds the paths
  that exist.  \<open>loads\<close> counts the calls of \<open>whisper.load_model\<close> made so far and
  \<open>events\<close> lists the effects in the order they happened.
\<close>

record state =
  models :: "(string \<times> handle option) list"
  fs :: "string set"
  loads :: nat
  events :: "event list"

text \<open>
  \<open>whisper_load_model n size\<close> is the outcome of the loader call number \<open>n\<close> of the
  process, \<open>tempfile_name\<close> the outcome of creating a named temporary file (the path
  without its suffix), \<open>write_error\<close> the outcome of \<open>write\<close> and \<open>flush\<close>, and
  \<open>model_transcribe h path\<close> the outcome of the model's \<open>transcribe\<close>.
  \<open>int_max_str_digits\<close> is the interpreter's limit on the digits of an int that is
  converted to a string, and \<open>recursion_budget\<close> the number of nested containers that
  the JSON encoder can enter when the response is built.
\<close>

record world =
  whisper_load_model :: "nat \<Rightarrow> string \<Rightarrow> pyexc + handle"
  tempfile_name :: "pyexc + string"
  write_error :: "pyexc option"
  model_transcribe :: "handle \<Rightarrow> string \<Rightarrow> pyexc + pydict"
  int_max_str_digits :: nat
  recursion_budget :: nat

text \<open>
  An upload: its file name (a string for every upload that the framework hands to a
  route) and the outcome of \<open>await file.read()\<close>: the bytes, an exception, or the
  cancellation of the task while it waits.
\<close>

record upload =
  filename :: string
  read_result :: "raised + string"

text \<open>
  What a handler ends with: a response, an \<open>HTTPException\<close> (status and detail), an
  instance of \<open>Exception\<close> that is no \<open>HTTPException\<close> and leaves the handler as it is,
  or the \<open>CancelledError\<close> that was thrown into it.
\<close>

datatype response = JSONResponse (status_code: nat) (content: pyval)

datatype failure = HTTPException nat string | Uncaught pyexc | Cancelled

definition initial_models :: "(string \<times> handle option) list" where
  "initial_models = [(''base'', None), (''large'', None)]"

subsection \<open>The model registry\<close>

text \<open>
  The loop \<open>for attempt in range(max_retries)\<close> of \<open>load_model_with_retry\<close>.  An empty
  range falls off the end of the function, which returns \<open>None\<close>.
\<close>

function load_attempts ::
  "world \<Rightarrow> string \<Rightarrow> int \<Rightarrow> nat \<Rightarrow> state \<Rightarrow> (pyexc + handle option) \<times> state" where
  "load_attempts w model_size max_retries attempt s =
     (if int attempt < max_retries then
        (let s1 = s\<lparr>loads := Suc (loads s), events := events s @ [EvLoad model_size]\<rparr>
         in case whisper_load_model w (loads s) model_size of
              Inr model \<Rightarrow> (Inr (Some model), s1)
            | Inl e \<Rightarrow>
                if int attempt < max_retries - 1
                then load_attempts w model_size max_retries (Suc attempt)
                       (s1\<lparr>events := events s1 @ [EvSleep (2 ^ attempt)]\<rparr>)
                else (Inl e, s1))
      else (Inr None, s))"
  by pat_completeness auto
termination
  by (relation "measure (\<lambda>(w, model_size, max_retries, attempt, s). nat (max_retries - int attempt))")
    auto

declare load_attempts.simps [simp del]

definition load_model_with_retry ::
  "world \<Rightarrow> string \<Rightarrow> int \<Rightarrow> state \<Rightarrow> (pyexc + handle option) \<times> state" where
  "load_model_with_retry w model_size max_retries s = load_attempts w model_size max_retries 0 s"

text \<open>
  \<open>get_model\<close> calls the loader with the default \<open>max_retries = 3\<close>.  Subscripting the
  dictionary with a key it does not have raises \<open>KeyError\<close>.
\<close>

definition key_error :: "string \<Rightarrow> pyexc" where
  "key_error k = PyExc ''KeyError'' ([CHR 0x27] @ k @ [CHR 0x27])"

definition get_model :: "world \<Rightarrow> string \<Rightarrow> state \<Rightarrow> (pyexc + handle option) \<times> state" where
  "get_model w model_size s =
     (case map_of (models s) model_size of
        None \<Rightarrow> (Inl (key_error model_size), s)
      | Some (Some h) \<Rightarrow> (Inr (Some h), s)
      | Some None \<Rightarrow>
          (case load_model_with_retry w model_size 3 s of
             (Inl e, s') \<Rightarrow> (Inl e, s')
           | (Inr m, s') \<Rightarrow> (Inr m, s'\<lparr>models := AList.update model_size m (models s')\<rparr>)))"

subsection \<open>File names\<close>

text \<open>
  \<open>os.path.splitext\<close> on a POSIX host: the extension starts at the last dot, provided
  that dot lies after the last slash and some character between them is not a dot.
  \<open>rfind\<close> is \<open>str.rfind\<close> for a single character, \<open>- 1\<close> when it does not occur.
\<close>

definition rfind :: "string \<Rightarrow> char \<Rightarrow> int" where
  "rfind p c =
     (if c \<in> set p
      then int (length p) - 1 - int (length (takeWhile (\<lambda>x. x \<noteq> c) (rev p)))
      else - 1)"

function splitext_scan :: "string \<Rightarrow> nat \<Rightarrow> nat \<Rightarrow> string \<times> string" where
  "splitext_scan p filenameIndex dotIndex =
     (if filenameIndex < dotIndex then
        (if take 1 (drop filenameIndex p) \<noteq> ''.''
         then (take dotIndex p, drop dotIndex p)
         else splitext_scan p (Suc filenameIndex) dotIndex)
      else (p, []))"
  by pat_completeness auto
termination
  by (relation "measure (\<lambda>(p, filenameIndex, dotIndex). dotIndex - filenameIndex)") auto

declare splitext_scan.simps [simp del]

definition splitext :: "string \<Rightarrow> string \<times> string" where
  "splitext p =
     (let sepIndex = rfind p (CHR ''/'');
          dotIndex = rfind p (CHR ''.'')
      in if dotIndex > sepIndex
         then splitext_scan p (nat (sepIndex + 1)) (nat dotIndex)
         else (p, []))"

text \<open>
  \<open>str.lower\<close> on the code points a \<open>char\<close> can hold: the ASCII capitals and the
  capitals of Latin-1 move up by 32, every other character stays.
\<close>

definition lower_char :: "char \<Rightarrow> char" where
  "lower_char c =
     (let n = (of_char c :: nat)
      in if (65 \<le> n \<and> n \<le> 90) \<or> (192 \<le> n \<and> n \<le> 222 \<and> n \<noteq> 215)
         then char_of (n + 32) else c)"

definition lower :: "string \<Rightarrow> string" where
  "lower t = map lower_char t"

subsection \<open>The request handler\<close>

text \<open>
  The set literal \<open>allowed_extensions\<close>.  Python does not fix the order in which a set
  of strings is iterated, so the order of the names in the detail of the rejection is
  one of several; the list below fixes the one of the source text, and no theorem
  depends on it.
\<close>

definition allowed_extensions :: "string list" where
  "allowed_extensions = [''.mp3'', ''.wav'', ''.m4a'']"

definition file_ext_of :: "upload \<Rightarrow> string" where
  "file_ext_of file = lower (snd (splitext (filename file)))"

definition invalid_model :: "state \<Rightarrow> failure" where
  "invalid_model s =
     HTTPException 400
       (''Invalid model size. Supported sizes: '' @ join '', '' (map fst (models s)))"

definition no_file :: failure where
  "no_file = HTTPException 400 ''No file provided''"

definition unsupported_file_type :: failure where
  "unsupported_file_type =
     HTTPException 400
       (''File type not supported. Allowed types: '' @ join '', '' allowed_extensions)"

text \<open>
  \<open>os.unlink\<close> on a POSIX host: removes an existing path, also while the file is
  open, and raises \<open>FileNotFoundError\<close> for a path that does not exist.  Every call is
  recorded, whatever its outcome.
\<close>

definition file_not_found :: "string \<Rightarrow> pyexc" where
  "file_not_found path =
     PyExc ''FileNotFoundError''
       (''[Errno 2] No such file or directory: '' @ [CHR 0x27] @ path @ [CHR 0x27])"

definition unlink :: "string \<Rightarrow> state \<Rightarrow> (pyexc + unit) \<times> state" where
  "unlink path s =
     (let s' = s\<lparr>events := events s @ [EvUnlink path]\<rparr>
      in if path \<in> fs s then (Inr (), s'\<lparr>fs := fs s - {path}\<rparr>)
         else (Inl (file_not_found path), s'))"

text \<open>
  \<open>tempfile.NamedTemporaryFile(delete=False, suffix=file_ext)\<close>: on success the file
  exists under a name that ends in the suffix.
\<close>

definition NamedTemporaryFile :: "world \<Rightarrow> string \<Rightarrow> state \<Rightarrow> (pyexc + string) \<times> state" where
  "NamedTemporaryFile w suffix s =
     (case tempfile_name w of
        Inl e \<Rightarrow> (Inl e, s)
      | Inr stem \<Rightarrow>
          (let name = stem @ suffix
           in (Inr name, s\<lparr>fs := insert name (fs s), events := events s @ [EvCreate name]\<rparr>)))"

text \<open>
  \<open>model.transcribe(temp_file.name)\<close>.  A model that is \<open>None\<close> has no such attribute.
  The trace records that the statement was reached.
\<close>

definition transcribe :: "world \<Rightarrow> handle option \<Rightarrow> string \<Rightarrow> state \<Rightarrow> (pyexc + pydict) \<times> state" where
  "transcribe w model name s =
     (let s' = s\<lparr>events := events s @ [EvTranscribe model name]\<rparr>
      in case model of
           None \<Rightarrow>
             (Inl (PyExc ''AttributeError''
                     (CHR 0x27 # ''NoneType'' @ CHR 0x27 # '' object has no attribute ''
                       @ CHR 0x27 # ''transcribe'' @ [CHR 0x27])), s')
         | Some h \<Rightarrow> (model_transcribe w h name, s'))"

text \<open>\<open>result[key]\<close> on a dictionary.\<close>

definition subscript :: "pydict \<Rightarrow> string \<Rightarrow> pyexc + pyval" where
  "subscript d k = (case map_of d k of None \<Rightarrow> Inl (key_error k) | Some v \<Rightarrow> Inr v)"

text \<open>
  The response class renders its content when it is constructed, so the encoder's
  exception is raised by the constructor.  The default status is 200.
\<close>

definition new_JSONResponse :: "world \<Rightarrow> pyval \<Rightarrow> pyexc + response" where
  "new_JSONResponse w c =
     (case encode_error (int_max_str_digits w) (recursion_budget w) c of
        Some e \<Rightarrow> Inl e
      | None \<Rightarrow> Inr (JSONResponse 200 c))"

text \<open>
  \<open>JSONResponse(content={"text": result["text"], "segments": result["segments"]})\<close>,
  evaluated left to right.
\<close>

definition build_response :: "world \<Rightarrow> pydict \<Rightarrow> pyexc + response" where
  "build_response w result =
     (case subscript result ''text'' of
        Inl e \<Rightarrow> Inl e
      | Inr t \<Rightarrow>
          (case subscript result ''segments'' of
             Inl e \<Rightarrow> Inl e
           | Inr g \<Rightarrow> new_JSONResponse w (PDict [(''text'', t), (''segments'', g)])))"

text \<open>
  The block of the \<open>with\<close> statement, entered with the file created under \<open>name\<close>:
  read the upload, write it, transcribe, remove the file, build the response.
\<close>

definition with_block ::
  "world \<Rightarrow> upload \<Rightarrow> handle option \<Rightarrow> string \<Rightarrow> state \<Rightarrow> (raised + response) \<times> state" where
  "with_block w file model name s =
     (case read_result file of
        Inl r \<Rightarrow> (Inl r, s)
      | Inr bytes \<Rightarrow>
          (case write_error w of
             Some e \<Rightarrow> (Inl (Raised e), s)
           | None \<Rightarrow>
               (case transcribe w model name s of
                  (Inl e, s1) \<Rightarrow> (Inl (Raised e), s1)
                | (Inr result, s1) \<Rightarrow>
                    (case unlink name s1 of
                       (Inl e, s2) \<Rightarrow> (Inl (Raised e), s2)
                     | (Inr u, s2) \<Rightarrow>
                         (case build_response w result of
                            Inl e \<Rightarrow> (Inl (Raised e), s2)
                          | Inr r \<Rightarrow> (Inr r, s2))))))"

text \<open>
  The body of the \<open>try\<close> statement.  Besides the outcome and the state it yields the
  local variable \<open>temp_file\<close>: \<open>None\<close> while the name is unbound, the path of the file
  once the \<open>with\<close> statement has bound it.  Leaving the \<open>with\<close> block closes the file
  and does not remove it.
\<close>

definition try_body ::
  "world \<Rightarrow> upload \<Rightarrow> string \<Rightarrow> string \<Rightarrow> state \<Rightarrow> (raised + response) \<times> string option \<times> state" where
  "try_body w file model_size file_ext s =
     (case get_model w model_size s of
        (Inl e, s1) \<Rightarrow> (Inl (Raised e), None, s1)
      | (Inr model, s1) \<Rightarrow>
          (case NamedTemporaryFile w file_ext s1 of
             (Inl e, s2) \<Rightarrow> (Inl (Raised e), None, s2)
           | (Inr name, s2) \<Rightarrow>
               (case with_block w file model name s2 of
                  (r, s3) \<Rightarrow> (r, Some name, s3))))"

text \<open>
  The clause \<open>except Exception as e\<close>.  It does not match \<open>CancelledError\<close>, which
  leaves the handler with nothing more done.  For an instance of \<open>Exception\<close> it removes
  the file if \<open>temp_file\<close> is bound and then raises the \<open>HTTPException\<close> with status 500
  and \<open>str(e)\<close>; an exception raised by the removal itself leaves the handler in place
  of the \<open>HTTPException\<close>.
\<close>

definition except_clause :: "raised \<Rightarrow> string option \<Rightarrow> state \<Rightarrow> failure \<times> state" where
  "except_clause r temp_file s =
     (case r of
        CancelledError \<Rightarrow> (Cancelled, s)
      | Raised e \<Rightarrow>
          (case temp_file of
             None \<Rightarrow> (HTTPException 500 (str_of e), s)
           | Some name \<Rightarrow>
               (case unlink name s of
                  (Inl e', s') \<Rightarrow> (Uncaught e', s')
                | (Inr u, s') \<Rightarrow> (HTTPException 500 (str_of e), s'))))"

text \<open>
  The handler.  The three checks come first and raise outside the \<open>try\<close> statement;
  \<open>not file\<close> holds for an upload that is \<open>None\<close>.
\<close>

definition process_audio ::
  "world \<Rightarrow> upload option \<Rightarrow> string \<Rightarrow> state \<Rightarrow> (failure + response) \<times> state" where
  "process_audio w file model_size s =
     (if model_size \<notin> set (map fst (models s)) then (Inl (invalid_model s), s)
      else case file of
        None \<Rightarrow> (Inl no_file, s)
      | Some f \<Rightarrow>
          (let file_ext = file_ext_of f
           in if file_ext \<notin> set allowed_extensions then (Inl unsupported_file_type, s)
              else (case try_body w f model_size file_ext s of
                      (Inr r, temp_file, s') \<Rightarrow> (Inr r, s')
                    | (Inl e, temp_file, s') \<Rightarrow>
                        (case except_clause e temp_file s' of
                           (err, s2) \<Rightarrow> (Inl err, s2)))))"

subsection \<open>The routes\<close>

definition transcribe_audio_fast ::
  "world \<Rightarrow> upload option \<Rightarrow> state \<Rightarrow> (failure + response) \<times> state" where
  "transcribe_audio_fast w file s = process_audio w file ''base'' s"

definition transcribe_audio_accurate ::
  "world \<Rightarrow> upload option \<Rightarrow> state \<Rightarrow> (failure + response) \<times> state" where
  "transcribe_audio_accurate w file s = process_audio w file ''large'' s"

definition model_status :: "state \<Rightarrow> (string \<times> string) list" where
  "model_status s =
     map (\<lambda>(name, model). (name, if model \<noteq> None then ''loaded'' else ''not loaded''))
       (models s)"

definition root :: "state \<Rightarrow> pydict" where
  "root s =
     [(''message'', PStr ''Audio Transcription API is running''),
      (''endpoints'',
         PDict
           [(''/transcribe/fast'', PStr ''Quick transcription using base model (~142MB)''),
            (''/transcribe/accurate'',
               PStr ''High-accuracy transcription using large model (~2.9GB)'')]),
      (''model_status'', PDict (map (\<lambda>(name, t). (name, PStr t)) (model_status s)))]"

text \<open>
  The states the process can be in: it starts with the registry of the source text, and
  each request handled by one of the two POST routes takes it to the next state.
\<close>

inductive reachable :: "state \<Rightarrow> bool" where
  start: "models s = initial_models \<Longrightarrow> reachable s"
| fast: "reachable s \<Longrightarrow> reachable (snd (transcribe_audio_fast w file s))"
| accurate: "reachable s \<Longrightarrow> reachable (snd (transcribe_audio_accurate w file s))"

subsection \<open>Traces and concrete inputs\<close>

text \<open>
  The effects of \<open>k\<close> failed attempts that are followed by another one, starting at
  attempt \<open>a\<close>: each is a call of the loader and a sleep of \<open>2 ^ i\<close> seconds.
\<close>

definition backoff_trace :: "string \<Rightarrow> nat \<Rightarrow> nat \<Rightarrow> event list" where
  "backoff_trace model_size a k =
     concat (map (\<lambda>i. [EvLoad model_size, EvSleep (2 ^ i)]) [a..<a + k])"

text \<open>How often \<open>os.unlink\<close> has been called on a path.\<close>

definition unlink_calls :: "string \<Rightarrow> state \<Rightarrow> nat" where
  "unlink_calls path s = count_list (events s) (EvUnlink path)"

text \<open>
  A freshly started process, and a few worlds: one whose loader fails twice and then
  succeeds, one whose loader always fails, and one whose model returns a segment with a
  log-probability that is not a number.
\<close>

definition cold :: state where
  "cold = \<lparr>models = initial_models, fs = {}, loads = 0, events = []\<rparr>"

definition transcript :: pydict where
  "transcript =
     [(''text'', PStr ''hello''),
      (''segments'',
         PList [PDict [(''start'', PFloat (Finite 0 0)), (''end'', PFloat (Finite 3 (- 1))),
                       (''text'', PStr ''hello'')]]),
      (''language'', PStr ''en'')]"

definition nan_transcript :: pydict where
  "nan_transcript =
     [(''text'', PStr []),
      (''segments'', PList [PDict [(''avg_logprob'', PFloat NaN), (''text'', PStr [])]]),
      (''language'', PStr ''en'')]"

definition flaky :: world where
  "flaky =
     \<lparr>whisper_load_model =
        (\<lambda>n size. if n < 2 then Inl (PyExc ''RuntimeError'' ''download failed'')
                   else Inr (Handle 7)),
      tempfile_name = Inr ''/tmp/tmpab12'',
      write_error = None,
      model_transcribe = (\<lambda>h path. Inr transcript),
      int_max_str_digits = 4300,
      recursion_budget = 900\<rparr>"

definition down :: world where
  "down =
     \<lparr>whisper_load_model =
        (\<lambda>n size. Inl (PyExc ''RuntimeError'' (if n mod 3 = 2 then ''gave up'' else ''timed out''))),
      tempfile_name = Inr ''/tmp/tmpab12'',
      write_error = None,
      model_transcribe = (\<lambda>h path. Inr transcript),
      int_max_str_digits = 4300,
      recursion_budget = 900\<rparr>"

definition nan_world :: world where
  "nan_world =
     \<lparr>whisper_load_model = (\<lambda>n size. Inr (Handle 7)),
      tempfile_name = Inr ''/tmp/tmpab12'',
      write_error = None,
      model_transcribe = (\<lambda>h path. Inr nan_transcript),
      int_max_str_digits = 4300,
      recursion_budget = 900\<rparr>"

text \<open>A process in which the base model is loaded already.\<close>

definition warm :: state where
  "warm =
     \<lparr>models = [(''base'', Some (Handle 7)), (''large'', None)], fs = {}, loads = 3,
      events = []\<rparr>"

definition song :: upload where
  "song = \<lparr>filename = ''song.MP3'', read_result = Inr ''RIFF''\<rparr>"

definition memo :: upload where
  "memo = \<lparr>filename = ''notes.txt'', read_result = Inr ''plain''\<rparr>"

text \<open>An upload whose task is cancelled while it waits for the bytes.\<close>

definition stalled :: upload where
  "stalled = \<lparr>filename = ''talk.wav'', read_result = Inl CancelledError\<rparr>"

section \<open>Properties\<close>

subsection \<open>The retry loop\<close>

lemma backoff_trace_0 [simp]: "backoff_trace ms a 0 = []"
  by (simp add: backoff_trace_def)

lemma backoff_trace_Suc:
  "backoff_trace ms a (Suc k) = [EvLoad ms, EvSleep (2 ^ a)] @ backoff_trace ms (Suc a) k"
  by (simp add: backoff_trace_def upt_conv_Cons)

lemma load_attempts_success:
  "\<lbrakk>int (a + k) < max_retries;
    \<forall>j<k. \<exists>e. whisper_load_model w (loads s + j) ms = Inl e;
    whisper_load_model w (loads s + k) ms = Inr h\<rbrakk>
   \<Longrightarrow> load_attempts w ms max_retries a s =
         (Inr (Some h),
          s\<lparr>loads := loads s + k + 1,
            events := events s @ backoff_trace ms a k @ [EvLoad ms]\<rparr>)"
proof (induction k arbitrary: a s)
  case 0
  then show ?case
    by (subst load_attempts.simps) simp
next
  case (Suc k)
  from Suc.prems(2) obtain e where e: "whisper_load_model w (loads s) ms = Inl e"
    by force
  let ?s = "s\<lparr>loads := Suc (loads s), events := events s @ [EvLoad ms, EvSleep (2 ^ a)]\<rparr>"
  have 1: "int (Suc a + k) < max_retries" using Suc.prems(1) by simp
  have 2: "\<forall>j<k. \<exists>e. whisper_load_model w (loads ?s + j) ms = Inl e"
    using Suc.prems(2) by (auto dest: spec [where x = "Suc j" for j])
  have 3: "whisper_load_model w (loads ?s + k) ms = Inr h"
    using Suc.prems(3) by simp
  have "load_attempts w ms max_retries a s = load_attempts w ms max_retries (Suc a) ?s"
    using Suc.prems(1) e by (subst load_attempts.simps) simp
  also have "\<dots> = (Inr (Some h),
       ?s\<lparr>loads := loads ?s + k + 1, events := events ?s @ backoff_trace ms (Suc a) k @ [EvLoad ms]\<rparr>)"
    by (rule Suc.IH [OF 1 2 3])
  finally show ?case
    by (simp add: backoff_trace_Suc)
qed

lemma load_attempts_exhausted:
  "\<lbrakk>int (a + k) + 1 = max_retries;
    \<forall>j<k. \<exists>e. whisper_load_model w (loads s + j) ms = Inl e;
    whisper_load_model w (loads s + k) ms = Inl e\<rbrakk>
   \<Longrightarrow> load_attempts w ms max_retries a s =
         (Inl e,
          s\<lparr>loads := loads s + k + 1,
            events := events s @ backoff_trace ms a k @ [EvLoad ms]\<rparr>)"
proof (induction k arbitrary: a s)
  case 0
  then show ?case
    by (subst load_attempts.simps) auto
next
  case (Suc k)
  from Suc.prems(2) obtain e0 where e: "whisper_load_model w (loads s) ms = Inl e0"
    by force
  let ?s = "s\<lparr>loads := Suc (loads s), events := events s @ [EvLoad ms, EvSleep (2 ^ a)]\<rparr>"
  have 1: "int (Suc a + k) + 1 = max_retries" using Suc.prems(1) by simp
  have 2: "\<forall>j<k. \<exists>e. whisper_load_model w (loads ?s + j) ms = Inl e"
    using Suc.prems(2) by (auto dest: spec [where x = "Suc j" for j])
  have 3: "whisper_load_model w (loads ?s + k) ms = Inl e"
    using Suc.prems(3) by simp
  have "load_attempts w ms max_retries a s = load_attempts w ms max_retries (Suc a) ?s"
    using Suc.prems(1) e by (subst load_attempts.simps) auto
  also have "\<dots> = (Inl e,
       ?s\<lparr>loads := loads ?s + k + 1, events := events ?s @ backoff_trace ms (Suc a) k @ [EvLoad ms]\<rparr>)"
    by (rule Suc.IH [OF 1 2 3])
  finally show ?case
    by (simp add: backoff_trace_Suc)
qed

text \<open>
  Whatever the loader answers, the loop calls it at most \<open>max_retries - attempt\<close> more
  times, and it touches neither the registry nor the file system.
\<close>

lemma load_attempts_frame:
  "load_attempts w ms max_retries a s = (r, s') \<Longrightarrow>
   loads s \<le> loads s' \<and> int (loads s' - loads s) \<le> max 0 (max_retries - int a)
   \<and> models s' = models s \<and> fs s' = fs s
   \<and> (\<exists>tr. events s' = events s @ tr
            \<and> (\<forall>p. EvCreate p \<notin> set tr) \<and> (\<forall>p. EvUnlink p \<notin> set tr))"
proof (induction w ms max_retries a s rule: load_attempts.induct)
  case (1 w ms mr a s)
  show ?case
  proof (cases "int a < mr")
    case False
    with "1.prems" show ?thesis by (subst (asm) load_attempts.simps) auto
  next
    case True
    note lt = this
    show ?thesis
    proof (cases "whisper_load_model w (loads s) ms")
      case (Inr h)
      with lt "1.prems" show ?thesis by (subst (asm) load_attempts.simps) auto
    next
      case (Inl e)
      show ?thesis
      proof (cases "int a < mr - 1")
        case False
        with lt Inl "1.prems" show ?thesis by (subst (asm) load_attempts.simps) auto
      next
        case True
        let ?s = "s\<lparr>loads := Suc (loads s), events := events s @ [EvLoad ms, EvSleep (2 ^ a)]\<rparr>"
        have "load_attempts w ms mr (Suc a) ?s = (r, s')"
          using lt Inl True "1.prems" by (subst (asm) load_attempts.simps) simp
        from "1.IH" [OF lt refl Inl True, simplified, OF this]
        show ?thesis using True by auto
      qed
    qed
  qed
qed

text \<open>With at least one attempt allowed, the loop never falls off its end.\<close>

lemma load_attempts_first:
  assumes "int a < max_retries" and "load_attempts w ms max_retries a s = (r, s')"
  shows "loads s < loads s' \<and> r \<noteq> Inr None"
  using assms
proof (induction w ms max_retries a s rule: load_attempts.induct)
  case (1 w ms mr a s)
  show ?case
  proof (cases "whisper_load_model w (loads s) ms")
    case (Inr h)
    with "1.prems" show ?thesis by (subst (asm) load_attempts.simps) auto
  next
    case (Inl e)
    show ?thesis
    proof (cases "int a < mr - 1")
      case False
      with Inl "1.prems" show ?thesis by (subst (asm) load_attempts.simps) auto
    next
      case True
      let ?s = "s\<lparr>loads := Suc (loads s), events := events s @ [EvLoad ms, EvSleep (2 ^ a)]\<rparr>"
      have rec: "load_attempts w ms mr (Suc a) ?s = (r, s')"
        using Inl True "1.prems" by (subst (asm) load_attempts.simps) simp
      have "1 + int a < mr" using True by simp
      from "1.IH" [OF "1.prems"(1) refl Inl True, simplified, OF this rec]
      show ?thesis by auto
    qed
  qed
qed

text \<open>
  C3.  \<open>load_model_with_retry\<close> calls the loader at most \<open>max_retries\<close> times.  If the
  attempts \<open>0, \<dots>, k - 1\<close> fail and attempt \<open>k\<close> (one of the \<open>max_retries\<close>) succeeds,
  the handle of attempt \<open>k\<close> is returned after exactly \<open>k + 1\<close> calls of the loader, and
  the failed attempt \<open>i\<close> was followed by a sleep of exactly \<open>2 ^ i\<close> seconds before the
  next call.  If all \<open>max_retries = k + 1\<close> attempts fail, the same sleeps separate the
  attempts, none follows the last one, and the error of the last attempt is raised.
\<close>

theorem load_model_with_retry_backoff:
  "(int k < max_retries
      \<and> (\<forall>j<k. \<exists>e. whisper_load_model w (loads s + j) ms = Inl e)
      \<and> whisper_load_model w (loads s + k) ms = Inr h
    \<longrightarrow> load_model_with_retry w ms max_retries s =
          (Inr (Some h),
           s\<lparr>loads := loads s + k + 1,
             events := events s @ backoff_trace ms 0 k @ [EvLoad ms]\<rparr>))
   \<and> (int k + 1 = max_retries
      \<and> (\<forall>j<k. \<exists>e. whisper_load_model w (loads s + j) ms = Inl e)
      \<and> whisper_load_model w (loads s + k) ms = Inl err
    \<longrightarrow> load_model_with_retry w ms max_retries s =
          (Inl err,
           s\<lparr>loads := loads s + k + 1,
             events := events s @ backoff_trace ms 0 k @ [EvLoad ms]\<rparr>))
   \<and> loads s \<le> loads (snd (load_model_with_retry w ms max_retries s))
   \<and> int (loads (snd (load_model_with_retry w ms max_retries s)) - loads s)
       \<le> max 0 max_retries"
proof (intro conjI impI)
  assume "int k < max_retries
      \<and> (\<forall>j<k. \<exists>e. whisper_load_model w (loads s + j) ms = Inl e)
      \<and> whisper_load_model w (loads s + k) ms = Inr h"
  then show "load_model_with_retry w ms max_retries s =
          (Inr (Some h),
           s\<lparr>loads := loads s + k + 1,
             events := events s @ backoff_trace ms 0 k @ [EvLoad ms]\<rparr>)"
    unfolding load_model_with_retry_def
    using load_attempts_success [of 0 k max_retries w s ms h] by simp
next
  assume "int k + 1 = max_retries
      \<and> (\<forall>j<k. \<exists>e. whisper_load_model w (loads s + j) ms = Inl e)
      \<and> whisper_load_model w (loads s + k) ms = Inl err"
  then show "load_model_with_retry w ms max_retries s =
          (Inl err,
           s\<lparr>loads := loads s + k + 1,
             events := events s @ backoff_trace ms 0 k @ [EvLoad ms]\<rparr>)"
    unfolding load_model_with_retry_def
    using load_attempts_exhausted [of 0 k max_retries w s ms err] by simp
next
  obtain r s' where rs: "load_attempts w ms max_retries 0 s = (r, s')"
    by (cases "load_attempts w ms max_retries 0 s")
  from load_attempts_frame [OF rs]
  show "loads s \<le> loads (snd (load_model_with_retry w ms max_retries s))"
    and "int (loads (snd (load_model_with_retry w ms max_retries s)) - loads s)
       \<le> max 0 max_retries"
    by (auto simp add: load_model_with_retry_def rs)
qed

lemma backoff_trace_two:
  "backoff_trace ms 0 2 = [EvLoad ms, EvSleep 1, EvLoad ms, EvSleep 2]"
  by (simp add: backoff_trace_def upt_conv_Cons numeral_2_eq_2)

theorem load_model_with_retry_backoff_witness:
  "load_model_with_retry flaky ''base'' 3 cold =
     (Inr (Some (Handle 7)),
      cold\<lparr>loads := 3,
           events := [EvLoad ''base'', EvSleep 1, EvLoad ''base'', EvSleep 2, EvLoad ''base'']\<rparr>)
   \<and> load_model_with_retry down ''base'' 3 cold =
     (Inl (PyExc ''RuntimeError'' ''gave up''),
      cold\<lparr>loads := 3,
           events := [EvLoad ''base'', EvSleep 1, EvLoad ''base'', EvSleep 2, EvLoad ''base'']\<rparr>)"
proof
  have "\<forall>j<2. \<exists>e. whisper_load_model flaky (loads cold + j) ''base'' = Inl e"
    by (simp add: flaky_def cold_def)
  moreover have "whisper_load_model flaky (loads cold + 2) ''base'' = Inr (Handle 7)"
    by (simp add: flaky_def)
  ultimately show "load_model_with_retry flaky ''base'' 3 cold =
     (Inr (Some (Handle 7)),
      cold\<lparr>loads := 3,
           events := [EvLoad ''base'', EvSleep 1, EvLoad ''base'', EvSleep 2, EvLoad ''base'']\<rparr>)"
    using load_model_with_retry_backoff [of 2 3 flaky cold "''base''" "Handle 7"]
    by (simp add: backoff_trace_two cold_def)
next
  have "\<forall>j<2. \<exists>e. whisper_load_model down (loads cold + j) ''base'' = Inl e"
    by (simp add: down_def cold_def)
  moreover have "whisper_load_model down (loads cold + 2) ''base'' =
      Inl (PyExc ''RuntimeError'' ''gave up'')"
    by (simp add: down_def cold_def)
  ultimately show "load_model_with_retry down ''base'' 3 cold =
     (Inl (PyExc ''RuntimeError'' ''gave up''),
      cold\<lparr>loads := 3,
           events := [EvLoad ''base'', EvSleep 1, EvLoad ''base'', EvSleep 2, EvLoad ''base'']\<rparr>)"
    using load_model_with_retry_backoff
      [of 2 3 down cold "''base''" _ "PyExc ''RuntimeError'' ''gave up''"]
    by (simp add: backoff_trace_two cold_def)
qed


subsection \<open>The registry\<close>

lemma load_model_with_retry_frame:
  assumes "load_model_with_retry w ms 3 s = (r, s')"
  shows "loads s < loads s'" and "r \<noteq> Inr None" and "models s' = models s" and "fs s' = fs s"
    and "\<exists>tr. events s' = events s @ tr
            \<and> (\<forall>p. EvCreate p \<notin> set tr) \<and> (\<forall>p. EvUnlink p \<notin> set tr)"
  using assms load_attempts_frame [of w ms 3 0 s r s'] load_attempts_first [of 0 3 w ms s r s']
  by (simp_all add: load_model_with_retry_def)

lemma get_model_hot:
  "map_of (models s) ms = Some (Some h) \<Longrightarrow> get_model w ms s = (Inr (Some h), s)"
  by (simp add: get_model_def)

lemma get_model_cold:
  assumes "map_of (models s) ms = Some None"
  shows "get_model w ms s =
     (case load_model_with_retry w ms 3 s of
        (Inl e, s') \<Rightarrow> (Inl e, s')
      | (Inr m, s') \<Rightarrow> (Inr m, s'\<lparr>models := AList.update ms m (models s')\<rparr>))"
  using assms by (simp add: get_model_def)

lemma get_model_stores:
  assumes "get_model w ms s = (Inr (Some h), s')"
  shows "map_of (models s') ms = Some (Some h)"
proof (cases "map_of (models s) ms")
  case None
  with assms show ?thesis by (simp add: get_model_def)
next
  case (Some entry)
  show ?thesis
  proof (cases entry)
    case None
    with Some assms show ?thesis
      by (auto simp add: get_model_def AList.update_conv' split: prod.splits sum.splits)
  next
    case (Some h')
    with \<open>map_of (models s) ms = Some entry\<close> assms show ?thesis
      by (auto simp add: get_model_def)
  qed
qed

lemma get_model_keeps:
  assumes "map_of (models s) k = Some (Some h)" and "get_model w ms s = (r, s')"
  shows "map_of (models s') k = Some (Some h)"
proof (cases "map_of (models s) ms")
  case None
  with assms show ?thesis by (simp add: get_model_def)
next
  case (Some entry)
  show ?thesis
  proof (cases entry)
    case (Some h')
    with \<open>map_of (models s) ms = Some entry\<close> assms show ?thesis
      by (auto simp add: get_model_def)
  next
    case None
    obtain r0 s0 where l: "load_model_with_retry w ms 3 s = (r0, s0)"
      by (cases "load_model_with_retry w ms 3 s")
    have ne: "ms \<noteq> k" using None Some assms(1) by auto
    have m0: "models s0 = models s" by (rule load_model_with_retry_frame(3) [OF l])
    from assms(2) None Some l m0 ne assms(1) show ?thesis
      by (auto simp add: get_model_def AList.update_conv' split: sum.splits)
  qed
qed

lemma get_model_cases [consumes 1, case_names missing hot failed loaded]:
  assumes "get_model w ms s = (r, s')"
  obtains "map_of (models s) ms = None" and "r = Inl (key_error ms)" and "s' = s"
  | h where "map_of (models s) ms = Some (Some h)" and "r = Inr (Some h)" and "s' = s"
  | e where "map_of (models s) ms = Some None"
      and "load_model_with_retry w ms 3 s = (Inl e, s')" and "r = Inl e"
  | m s0 where "map_of (models s) ms = Some None"
      and "load_model_with_retry w ms 3 s = (Inr m, s0)" and "r = Inr m"
      and "s' = s0\<lparr>models := AList.update ms m (models s0)\<rparr>"
proof (cases "map_of (models s) ms")
  case None
  with assms have "r = Inl (key_error ms)" and "s' = s"
    by (auto simp add: get_model_def)
  with None show ?thesis by (rule that(1))
next
  case (Some entry)
  show ?thesis
  proof (cases entry)
    case (Some h)
    with \<open>map_of (models s) ms = Some entry\<close> have hot: "map_of (models s) ms = Some (Some h)"
      by simp
    with assms have "r = Inr (Some h)" and "s' = s"
      by (auto simp add: get_model_def)
    with hot show ?thesis by (rule that(2))
  next
    case None
    with Some have cold: "map_of (models s) ms = Some None" by simp
    obtain r0 s0 where l: "load_model_with_retry w ms 3 s = (r0, s0)"
      by (cases "load_model_with_retry w ms 3 s")
    show ?thesis
    proof (cases r0)
      case (Inl e)
      with cold l assms have "r = Inl e" and "s' = s0"
        by (auto simp add: get_model_def)
      with cold l Inl show ?thesis by (intro that(3)) simp_all
    next
      case (Inr m)
      with cold l assms have "r = Inr m"
        and "s' = s0\<lparr>models := AList.update ms m (models s0)\<rparr>"
        by (auto simp add: get_model_def)
      with cold l Inr show ?thesis by (intro that(4)) simp_all
    qed
  qed
qed

lemma get_model_frame:
  assumes "get_model w ms s = (r, s')"
  shows "fs s' = fs s \<and> loads s \<le> loads s' \<and> map fst (models s') = map fst (models s)
    \<and> (\<exists>tr. events s' = events s @ tr
            \<and> (\<forall>p. EvCreate p \<notin> set tr) \<and> (\<forall>p. EvUnlink p \<notin> set tr))"
  using assms
proof (cases rule: get_model_cases)
  case missing
  then show ?thesis by simp
next
  case (hot h)
  then show ?thesis by simp
next
  case (failed e)
  from load_model_with_retry_frame [OF failed(2)]
  show ?thesis by simp
next
  case (loaded m s0)
  note f = load_model_with_retry_frame [OF loaded(2)]
  have "ms \<in> fst ` set (models s)"
    using loaded(1) by (force dest: map_of_SomeD)
  then have "map fst (AList.update ms m (models s)) = map fst (models s)"
    by (simp add: AList.update_keys)
  with f loaded(4) show ?thesis by simp
qed

lemma get_model_cold_loads:
  assumes "map_of (models s) ms = Some None"
  shows "loads s < loads (snd (get_model w ms s))"
proof -
  obtain r s' where g: "get_model w ms s = (r, s')"
    by (cases "get_model w ms s")
  from g have "loads s < loads s'"
  proof (cases rule: get_model_cases)
    case (failed e)
    from load_model_with_retry_frame(1) [OF failed(2)] show ?thesis .
  next
    case (loaded m s0)
    from load_model_with_retry_frame(1) [OF loaded(2)] loaded(4) show ?thesis by simp
  qed (use assms in simp_all)
  with g show ?thesis by simp
qed

text \<open>The two concrete loaders, run on the fresh process.\<close>

lemma flaky_loads:
  "load_model_with_retry flaky ''base'' 3 cold =
     (Inr (Some (Handle 7)),
      cold\<lparr>loads := 3,
           events := [EvLoad ''base'', EvSleep 1, EvLoad ''base'', EvSleep 2, EvLoad ''base'']\<rparr>)"
  using load_attempts_success [of 0 2 3 flaky cold "''base''" "Handle 7"]
  by (simp add: load_model_with_retry_def flaky_def cold_def backoff_trace_two)

lemma third_call: "Suc (Suc (3 * n)) mod 3 = 2" and "Suc (3 * n) mod 3 \<noteq> 2"
  by presburger+

lemma down_loads:
  "load_model_with_retry down ms 3 (s\<lparr>loads := 3 * n\<rparr>) =
     (Inl (PyExc ''RuntimeError'' ''gave up''),
      s\<lparr>loads := 3 * n + 3,
        events := events s @ [EvLoad ms, EvSleep 1, EvLoad ms, EvSleep 2, EvLoad ms]\<rparr>)"
proof -
  have "\<forall>j<2. \<exists>e. whisper_load_model down (loads (s\<lparr>loads := 3 * n\<rparr>) + j) ms = Inl e"
    by (simp add: down_def)
  moreover have "whisper_load_model down (loads (s\<lparr>loads := 3 * n\<rparr>) + 2) ms =
      Inl (PyExc ''RuntimeError'' ''gave up'')"
    by (simp add: down_def third_call)
  ultimately show ?thesis
    using load_attempts_exhausted
      [of 0 2 3 down "s\<lparr>loads := 3 * n\<rparr>" ms "PyExc ''RuntimeError'' ''gave up''"]
    by (simp add: load_model_with_retry_def backoff_trace_two)
qed


subsection \<open>The paths through the handler\<close>

text \<open>
  Each lemma of this part follows one path through \<open>process_audio\<close> and gives the
  outcome and the final state of that path.
\<close>

lemma transcribe_events:
  "transcribe w m name s = (r, s') \<Longrightarrow> s' = s\<lparr>events := events s @ [EvTranscribe m name]\<rparr>"
  by (auto simp add: transcribe_def Let_def split: option.splits)

lemma transcribe_Some:
  "transcribe w (Some h) name s =
     (model_transcribe w h name, s\<lparr>events := events s @ [EvTranscribe (Some h) name]\<rparr>)"
  by (simp add: transcribe_def Let_def)

lemma path_invalid_model:
  "ms \<notin> set (map fst (models s)) \<Longrightarrow> process_audio w file ms s = (Inl (invalid_model s), s)"
  by (simp add: process_audio_def)

lemma path_no_file:
  "ms \<in> set (map fst (models s)) \<Longrightarrow> process_audio w None ms s = (Inl no_file, s)"
  by (simp add: process_audio_def)

lemma path_bad_type:
  "\<lbrakk>ms \<in> set (map fst (models s)); file_ext_of f \<notin> set allowed_extensions\<rbrakk>
   \<Longrightarrow> process_audio w (Some f) ms s = (Inl unsupported_file_type, s)"
  by (simp add: process_audio_def Let_def)

lemma path_acquire_failed:
  "\<lbrakk>ms \<in> set (map fst (models s)); file_ext_of f \<in> set allowed_extensions;
    get_model w ms s = (Inl e, s1)\<rbrakk>
   \<Longrightarrow> process_audio w (Some f) ms s = (Inl (HTTPException 500 (str_of e)), s1)"
  by (simp add: process_audio_def Let_def try_body_def except_clause_def)

lemma path_create_failed:
  "\<lbrakk>ms \<in> set (map fst (models s)); file_ext_of f \<in> set allowed_extensions;
    get_model w ms s = (Inr m, s1); tempfile_name w = Inl e\<rbrakk>
   \<Longrightarrow> process_audio w (Some f) ms s = (Inl (HTTPException 500 (str_of e)), s1)"
  by (simp add: process_audio_def Let_def try_body_def except_clause_def NamedTemporaryFile_def)

lemma path_read_failed:
  "\<lbrakk>ms \<in> set (map fst (models s)); file_ext_of f \<in> set allowed_extensions;
    get_model w ms s = (Inr m, s1); tempfile_name w = Inr stem;
    read_result f = Inl (Raised e)\<rbrakk>
   \<Longrightarrow> process_audio w (Some f) ms s =
         (Inl (HTTPException 500 (str_of e)),
          s1\<lparr>fs := fs s1 - {stem @ file_ext_of f},
             events := events s1 @ [EvCreate (stem @ file_ext_of f),
                                    EvUnlink (stem @ file_ext_of f)]\<rparr>)"
  by (simp add: process_audio_def Let_def try_body_def except_clause_def NamedTemporaryFile_def
      with_block_def unlink_def)

text \<open>
  The path on which the task is cancelled while it waits for the upload: the \<open>except\<close>
  clause does not run, and the file that was created stays.
\<close>

lemma path_read_cancelled:
  "\<lbrakk>ms \<in> set (map fst (models s)); file_ext_of f \<in> set allowed_extensions;
    get_model w ms s = (Inr m, s1); tempfile_name w = Inr stem;
    read_result f = Inl CancelledError\<rbrakk>
   \<Longrightarrow> process_audio w (Some f) ms s =
         (Inl Cancelled,
          s1\<lparr>fs := insert (stem @ file_ext_of f) (fs s1),
             events := events s1 @ [EvCreate (stem @ file_ext_of f)]\<rparr>)"
  by (simp add: process_audio_def Let_def try_body_def except_clause_def NamedTemporaryFile_def
      with_block_def)

lemma path_write_failed:
  "\<lbrakk>ms \<in> set (map fst (models s)); file_ext_of f \<in> set allowed_extensions;
    get_model w ms s = (Inr m, s1); tempfile_name w = Inr stem;
    read_result f = Inr b; write_error w = Some e\<rbrakk>
   \<Longrightarrow> process_audio w (Some f) ms s =
         (Inl (HTTPException 500 (str_of e)),
          s1\<lparr>fs := fs s1 - {stem @ file_ext_of f},
             events := events s1 @ [EvCreate (stem @ file_ext_of f),
                                    EvUnlink (stem @ file_ext_of f)]\<rparr>)"
  by (simp add: process_audio_def Let_def try_body_def except_clause_def NamedTemporaryFile_def
      with_block_def unlink_def)

lemma path_transcribe_failed:
  assumes "ms \<in> set (map fst (models s))" and "file_ext_of f \<in> set allowed_extensions"
    and "get_model w ms s = (Inr m, s1)" and "tempfile_name w = Inr stem"
    and "read_result f = Inr b" and "write_error w = None"
    and "transcribe w m (stem @ file_ext_of f) s2 = (Inl e, s3)"
  shows "process_audio w (Some f) ms s =
         (Inl (HTTPException 500 (str_of e)),
          s1\<lparr>fs := fs s1 - {stem @ file_ext_of f},
             events := events s1 @ [EvCreate (stem @ file_ext_of f),
                                    EvTranscribe m (stem @ file_ext_of f),
                                    EvUnlink (stem @ file_ext_of f)]\<rparr>)"
proof -
  let ?name = "stem @ file_ext_of f"
  let ?s2 = "s1\<lparr>fs := insert ?name (fs s1), events := events s1 @ [EvCreate ?name]\<rparr>"
  have "fst (transcribe w m ?name ?s2) = Inl e"
    using assms(7) by (auto simp add: transcribe_def Let_def split: option.splits)
  then have t: "transcribe w m ?name ?s2 =
      (Inl e, ?s2\<lparr>events := events ?s2 @ [EvTranscribe m ?name]\<rparr>)"
    using transcribe_events [of w m ?name ?s2] by (cases "transcribe w m ?name ?s2") auto
  show ?thesis
    using assms(1-6) t
    by (simp add: process_audio_def Let_def try_body_def except_clause_def NamedTemporaryFile_def
        with_block_def unlink_def)
qed

lemma path_transcribed:
  assumes "ms \<in> set (map fst (models s))" and "file_ext_of f \<in> set allowed_extensions"
    and "get_model w ms s = (Inr m, s1)" and "tempfile_name w = Inr stem"
    and "read_result f = Inr b" and "write_error w = None"
    and "transcribe w m (stem @ file_ext_of f) s2 = (Inr result, s3)"
  shows "process_audio w (Some f) ms s =
         (case build_response w result of
            Inr resp \<Rightarrow>
              (Inr resp,
               s1\<lparr>fs := fs s1 - {stem @ file_ext_of f},
                  events := events s1 @ [EvCreate (stem @ file_ext_of f),
                                         EvTranscribe m (stem @ file_ext_of f),
                                         EvUnlink (stem @ file_ext_of f)]\<rparr>)
          | Inl e \<Rightarrow>
              (Inl (Uncaught (file_not_found (stem @ file_ext_of f))),
               s1\<lparr>fs := fs s1 - {stem @ file_ext_of f},
                  events := events s1 @ [EvCreate (stem @ file_ext_of f),
                                         EvTranscribe m (stem @ file_ext_of f),
                                         EvUnlink (stem @ file_ext_of f),
                                         EvUnlink (stem @ file_ext_of f)]\<rparr>))"
proof -
  let ?name = "stem @ file_ext_of f"
  let ?s2 = "s1\<lparr>fs := insert ?name (fs s1), events := events s1 @ [EvCreate ?name]\<rparr>"
  have "fst (transcribe w m ?name ?s2) = Inr result"
    using assms(7) by (auto simp add: transcribe_def Let_def split: option.splits)
  then have t: "transcribe w m ?name ?s2 =
      (Inr result, ?s2\<lparr>events := events ?s2 @ [EvTranscribe m ?name]\<rparr>)"
    using transcribe_events [of w m ?name ?s2] by (cases "transcribe w m ?name ?s2") auto
  show ?thesis
  proof (cases "build_response w result")
    case (Inl e)
    with assms(1-6) t show ?thesis
      by (simp add: process_audio_def Let_def try_body_def except_clause_def
          NamedTemporaryFile_def with_block_def unlink_def)
  next
    case (Inr resp)
    with assms(1-6) t show ?thesis
      by (simp add: process_audio_def Let_def try_body_def except_clause_def
          NamedTemporaryFile_def with_block_def unlink_def)
  qed
qed


text \<open>
  Every run of the handler has one of three shapes: the request is rejected and nothing
  happens; the registry is consulted and the request fails before a file exists; or the
  file is created and, whatever follows, removed.
\<close>

lemma process_audio_cases [consumes 1, case_names rejected not_created created cancelled]:
  assumes "process_audio w file ms s = (r, s')"
  obtains "ms \<notin> set (map fst (models s)) \<and> r = Inl (invalid_model s)
      \<or> ms \<in> set (map fst (models s)) \<and> (r = Inl no_file \<or> r = Inl unsupported_file_type)"
    and "s' = s"
  | rg e where "ms \<in> set (map fst (models s))" and "get_model w ms s = (rg, s')"
      and "r = Inl (HTTPException 500 (str_of e))"
  | m s1 name tr where "ms \<in> set (map fst (models s))" and "get_model w ms s = (Inr m, s1)"
      and "s' = s1\<lparr>fs := fs s1 - {name}, events := events s1 @ EvCreate name # tr\<rparr>"
      and "set tr \<subseteq> {EvTranscribe m name, EvUnlink name}"
      and "r \<noteq> Inl (invalid_model s)"
      and "count_list tr (EvUnlink name) =
             (if r = Inl (Uncaught (file_not_found name)) then 2 else 1)"
      and "r \<noteq> Inl Cancelled"
  | m s1 name where "ms \<in> set (map fst (models s))" and "get_model w ms s = (Inr m, s1)"
      and "s' = s1\<lparr>fs := insert name (fs s1), events := events s1 @ [EvCreate name]\<rparr>"
      and "r = Inl Cancelled"
proof (cases "ms \<in> set (map fst (models s))")
  case False
  with assms have "r = Inl (invalid_model s)" and "s' = s"
    by (auto simp add: path_invalid_model)
  with False show ?thesis by (intro that(1)) simp_all
next
  case key: True
  show ?thesis
  proof (cases "file")
    case None
    with key assms have "r = Inl no_file" and "s' = s"
      by (auto simp add: path_no_file)
    with key show ?thesis by (intro that(1)) simp_all
  next
    case (Some f)
    show ?thesis
    proof (cases "file_ext_of f \<in> set allowed_extensions")
      case False
      with key Some assms have "r = Inl unsupported_file_type" and "s' = s"
        by (auto simp add: path_bad_type)
      with key show ?thesis by (intro that(1)) simp_all
    next
      case ext: True
      obtain rg s1 where g: "get_model w ms s = (rg, s1)"
        by (cases "get_model w ms s")
      show ?thesis
      proof (cases rg)
        case (Inl e)
        with key ext g Some assms have "r = Inl (HTTPException 500 (str_of e))" and "s' = s1"
          by (auto simp add: path_acquire_failed)
        with key g show ?thesis by (intro that(2)) simp_all
      next
        case (Inr m)
        with g have g': "get_model w ms s = (Inr m, s1)" by simp
        show ?thesis
        proof (cases "tempfile_name w")
          case (Inl e)
          with key ext g' Some assms have "r = Inl (HTTPException 500 (str_of e))" and "s' = s1"
            by (auto simp add: path_create_failed)
          with key g show ?thesis by (intro that(2)) simp_all
        next
          case (Inr stem)
          let ?name = "stem @ file_ext_of f"
          have different: "Inl (HTTPException 500 x) \<noteq> (Inl (invalid_model s) :: failure + response)"
            for x by (simp add: invalid_model_def)
          show ?thesis
          proof (cases "read_result f")
            case (Inl x)
            show ?thesis
            proof (cases x)
              case (Raised e)
              with Inl have "read_result f = Inl (Raised e)" by simp
              from path_read_failed [OF key ext g' Inr this] Some assms
              have "r = Inl (HTTPException 500 (str_of e))"
                and "s' = s1\<lparr>fs := fs s1 - {?name},
                       events := events s1 @ EvCreate ?name # [EvUnlink ?name]\<rparr>"
                by auto
              with key g' different show ?thesis
                by (intro that(3) [of m s1 ?name "[EvUnlink ?name]"]) simp_all
            next
              case CancelledError
              with Inl have "read_result f = Inl CancelledError" by simp
              from path_read_cancelled [OF key ext g' Inr this] Some assms
              have "r = Inl Cancelled"
                and "s' = s1\<lparr>fs := insert ?name (fs s1),
                       events := events s1 @ [EvCreate ?name]\<rparr>"
                by auto
              with key g' show ?thesis
                by (intro that(4) [of m s1 ?name]) simp_all
            qed
          next
            case rd: (Inr b)
            show ?thesis
            proof (cases "write_error w")
              case (Some e)
              from path_write_failed [OF key ext g' Inr rd Some] \<open>file = Some f\<close> assms
              have "r = Inl (HTTPException 500 (str_of e))"
                and "s' = s1\<lparr>fs := fs s1 - {?name},
                     events := events s1 @ EvCreate ?name # [EvUnlink ?name]\<rparr>"
                by auto
              with key g' different show ?thesis by (intro that(3) [of m s1 ?name "[EvUnlink ?name]"]) simp_all
            next
              case None
              obtain rt s3 where t: "transcribe w m ?name s1 = (rt, s3)"
                by (cases "transcribe w m ?name s1")
              show ?thesis
              proof (cases rt)
                case (Inl e)
                with t have "transcribe w m ?name s1 = (Inl e, s3)" by simp
                from path_transcribe_failed [OF key ext g' Inr rd None this]
                  \<open>file = Some f\<close> assms
                have "r = Inl (HTTPException 500 (str_of e))"
                  and "s' = s1\<lparr>fs := fs s1 - {?name},
                     events := events s1 @ EvCreate ?name # [EvTranscribe m ?name, EvUnlink ?name]\<rparr>"
                  by auto
                with key g' different show ?thesis
                  by (intro that(3) [of m s1 ?name "[EvTranscribe m ?name, EvUnlink ?name]"]) simp_all
              next
                case (Inr result)
                with t have "transcribe w m ?name s1 = (Inr result, s3)" by simp
                note p = path_transcribed [OF key ext g' \<open>tempfile_name w = Inr stem\<close> rd None this]
                show ?thesis
                proof (cases "build_response w result")
                  case (Inl e)
                  with p \<open>file = Some f\<close> assms
                  have "r = Inl (Uncaught (file_not_found ?name))"
                    and "s' = s1\<lparr>fs := fs s1 - {?name},
                     events := events s1 @ EvCreate ?name #
                       [EvTranscribe m ?name, EvUnlink ?name, EvUnlink ?name]\<rparr>"
                    by auto
                  with key g' show ?thesis
                    by (intro that(3) [of m s1 ?name "[EvTranscribe m ?name, EvUnlink ?name, EvUnlink ?name]"])
                      (simp_all add: invalid_model_def)
                next
                  case (Inr resp)
                  with p \<open>file = Some f\<close> assms
                  have "r = Inr resp"
                    and "s' = s1\<lparr>fs := fs s1 - {?name},
                     events := events s1 @ EvCreate ?name # [EvTranscribe m ?name, EvUnlink ?name]\<rparr>"
                    by auto
                  with key g' show ?thesis
                    by (intro that(3) [of m s1 ?name "[EvTranscribe m ?name, EvUnlink ?name]"]) simp_all
                qed
              qed
            qed
          qed
        qed
      qed
    qed
  qed
qed


lemma process_audio_registry:
  assumes "process_audio w upl ms s = (r, s')"
  shows "map fst (models s') = map fst (models s)"
    and "map_of (models s) k = Some (Some h) \<Longrightarrow> map_of (models s') k = Some (Some h)"
  using assms
proof (atomize (full), cases rule: process_audio_cases)
  case rejected
  then show "map fst (models s') = map fst (models s) \<and>
    (map_of (models s) k = Some (Some h) \<longrightarrow> map_of (models s') k = Some (Some h))"
    by simp
next
  case (not_created rg e)
  with get_model_frame [OF not_created(2)] get_model_keeps [OF _ not_created(2), of k h]
  show "map fst (models s') = map fst (models s) \<and>
    (map_of (models s) k = Some (Some h) \<longrightarrow> map_of (models s') k = Some (Some h))"
    by simp
next
  case (created m s1 name tr)
  with get_model_frame [OF created(2)] get_model_keeps [OF _ created(2), of k h]
  show "map fst (models s') = map fst (models s) \<and>
    (map_of (models s) k = Some (Some h) \<longrightarrow> map_of (models s') k = Some (Some h))"
    by simp
next
  case (cancelled m s1 name)
  with get_model_frame [OF cancelled(2)] get_model_keeps [OF _ cancelled(2), of k h]
  show "map fst (models s') = map fst (models s) \<and>
    (map_of (models s) k = Some (Some h) \<longrightarrow> map_of (models s') k = Some (Some h))"
    by simp
qed

lemma flaky_get_model:
  "get_model flaky ''base'' cold =
     (Inr (Some (Handle 7)),
      cold\<lparr>models := [(''base'', Some (Handle 7)), (''large'', None)],
           loads := 3,
           events := [EvLoad ''base'', EvSleep 1, EvLoad ''base'', EvSleep 2, EvLoad ''base'']\<rparr>)"
proof -
  have "map_of (models cold) ''base'' = Some None"
    by (simp add: cold_def initial_models_def)
  from get_model_cold [OF this, of flaky] show ?thesis
    by (simp add: flaky_loads) (simp add: cold_def initial_models_def)
qed

lemma down_get_model:
  "get_model down ''base'' cold =
     (Inl (PyExc ''RuntimeError'' ''gave up''),
      cold\<lparr>loads := 3,
           events := [EvLoad ''base'', EvSleep 1, EvLoad ''base'', EvSleep 2, EvLoad ''base'']\<rparr>)"
proof -
  have "map_of (models cold) ''base'' = Some None"
    by (simp add: cold_def initial_models_def)
  from get_model_cold [OF this, of down] down_loads [where ms = "''base''" and s = cold and n = 0] show ?thesis
    by (simp add: cold_def)
qed

text \<open>
  C2.  On a registry whose entry for an identifier is \<open>None\<close>, \<open>get_model\<close> calls the
  loader at least once.  Once a call has returned a handle, a further call for the same
  identifier, whatever the world, returns the same handle and leaves the whole state
  (the counter of loader calls included) as it is; and the stored handle survives every
  other call of \<open>get_model\<close> and every request.
\<close>

theorem get_model_caches:
  "(map_of (models s) ms = Some None \<longrightarrow> loads s < loads (snd (get_model w ms s)))
   \<and> (get_model w ms s = (Inr (Some h), s') \<longrightarrow> get_model w' ms s' = (Inr (Some h), s'))
   \<and> (map_of (models s) ms = Some (Some h) \<longrightarrow>
        get_model w' ms s = (Inr (Some h), s)
        \<and> map_of (models (snd (get_model w' k s))) ms = Some (Some h)
        \<and> map_of (models (snd (process_audio w' upl k s))) ms = Some (Some h))"
proof (intro conjI impI)
  assume "map_of (models s) ms = Some None"
  then show "loads s < loads (snd (get_model w ms s))"
    by (rule get_model_cold_loads)
next
  assume "get_model w ms s = (Inr (Some h), s')"
  then have "map_of (models s') ms = Some (Some h)"
    by (rule get_model_stores)
  then show "get_model w' ms s' = (Inr (Some h), s')"
    by (rule get_model_hot)
next
  assume hot: "map_of (models s) ms = Some (Some h)"
  then show "get_model w' ms s = (Inr (Some h), s)"
    by (rule get_model_hot)
  show "map_of (models (snd (get_model w' k s))) ms = Some (Some h)"
    using get_model_keeps [OF hot, of w' k] by (cases "get_model w' k s") simp
  show "map_of (models (snd (process_audio w' upl k s))) ms = Some (Some h)"
    using process_audio_registry(2) [of w' upl k s _ _ ms h] hot
    by (cases "process_audio w' upl k s") simp
qed

theorem get_model_caches_witness:
  "loads cold < loads (snd (get_model flaky ''base'' cold))
   \<and> get_model down ''base'' (snd (get_model flaky ''base'' cold))
       = (Inr (Some (Handle 7)), snd (get_model flaky ''base'' cold))
   \<and> map_of (models (snd (get_model down ''large'' (snd (get_model flaky ''base'' cold)))))
         ''base'' = Some (Some (Handle 7))"
proof -
  let ?s = "snd (get_model flaky ''base'' cold)"
  have c: "map_of (models cold) ''base'' = Some None"
    by (simp add: cold_def initial_models_def)
  have g: "get_model flaky ''base'' cold = (Inr (Some (Handle 7)), ?s)"
    by (simp add: flaky_get_model)
  have h: "map_of (models ?s) ''base'' = Some (Some (Handle 7))"
    by (simp add: flaky_get_model)
  from get_model_caches [of cold "''base''" flaky "Handle 7" ?s down] c g
  have "loads cold < loads ?s"
    and "get_model down ''base'' ?s = (Inr (Some (Handle 7)), ?s)"
    by simp_all
  moreover from get_model_caches [of ?s "''base''" flaky "Handle 7" ?s down "''large''"] h
  have "map_of (models (snd (get_model down ''large'' ?s))) ''base'' = Some (Some (Handle 7))"
    by simp
  ultimately show ?thesis by simp
qed

text \<open>
  C4.  If the three attempts that \<open>get_model\<close> allows all fail on an unset entry, the
  error of the third attempt is raised and the entry is still \<open>None\<close>.  A later call
  therefore calls the loader again; if the loader fails three more times the whole
  sequence of attempts and sleeps is run once more from attempt 0, and if it succeeds at
  once the handle is returned.
\<close>

theorem failed_load_leaves_entry_unset:
  assumes "map_of (models s) ms = Some None"
    and "whisper_load_model w (loads s) ms = Inl e0"
    and "whisper_load_model w (loads s + 1) ms = Inl e1"
    and "whisper_load_model w (loads s + 2) ms = Inl e2"
  shows "get_model w ms s =
           (Inl e2,
            s\<lparr>loads := loads s + 3,
              events := events s @ [EvLoad ms, EvSleep 1, EvLoad ms, EvSleep 2, EvLoad ms]\<rparr>)
     \<and> map_of (models (snd (get_model w ms s))) ms = Some None
     \<and> loads (snd (get_model w ms s)) < loads (snd (get_model w2 ms (snd (get_model w ms s))))
     \<and> (whisper_load_model w2 (loads s + 3) ms = Inl e3
          \<and> whisper_load_model w2 (loads s + 4) ms = Inl e4
          \<and> whisper_load_model w2 (loads s + 5) ms = Inl e5
        \<longrightarrow> get_model w2 ms (snd (get_model w ms s)) =
              (Inl e5,
               s\<lparr>loads := loads s + 6,
                 events := events s @ [EvLoad ms, EvSleep 1, EvLoad ms, EvSleep 2, EvLoad ms]
                             @ [EvLoad ms, EvSleep 1, EvLoad ms, EvSleep 2, EvLoad ms]\<rparr>))
     \<and> (whisper_load_model w2 (loads s + 3) ms = Inr h
        \<longrightarrow> fst (get_model w2 ms (snd (get_model w ms s))) = Inr (Some h))"
proof -
  let ?tr = "[EvLoad ms, EvSleep 1, EvLoad ms, EvSleep 2, EvLoad ms]"
  let ?s1 = "s\<lparr>loads := loads s + 3, events := events s @ ?tr\<rparr>"
  have fails: "\<forall>j<2. \<exists>e. whisper_load_model w (loads s + j) ms = Inl e"
    using assms(2,3) by (auto simp add: less_Suc_eq numeral_2_eq_2)
  have l: "load_model_with_retry w ms 3 s = (Inl e2, ?s1)"
    using load_attempts_exhausted [of 0 2 3 w s ms e2] fails assms(4)
    by (simp add: load_model_with_retry_def backoff_trace_two)
  have g: "get_model w ms s = (Inl e2, ?s1)"
    using get_model_cold [OF assms(1), of w] l by simp
  have cold1: "map_of (models ?s1) ms = Some None"
    using assms(1) by simp
  have again: "loads ?s1 < loads (snd (get_model w2 ms ?s1))"
    using cold1 by (rule get_model_cold_loads)
  have second: "get_model w2 ms ?s1 =
      (Inl e5, s\<lparr>loads := loads s + 6, events := events s @ ?tr @ ?tr\<rparr>)"
    if "whisper_load_model w2 (loads s + 3) ms = Inl e3"
      and "whisper_load_model w2 (loads s + 4) ms = Inl e4"
      and "whisper_load_model w2 (loads s + 5) ms = Inl e5"
  proof -
    have "\<forall>j<2. \<exists>e. whisper_load_model w2 (loads ?s1 + j) ms = Inl e"
      using that(1,2) by (auto simp add: less_Suc_eq numeral_2_eq_2 add.commute)
    moreover have "whisper_load_model w2 (loads ?s1 + 2) ms = Inl e5"
      using that(3) by (simp add: add.commute)
    ultimately have "load_model_with_retry w2 ms 3 ?s1 =
        (Inl e5, s\<lparr>loads := loads s + 6, events := events s @ ?tr @ ?tr\<rparr>)"
      using load_attempts_exhausted [of 0 2 3 w2 ?s1 ms e5]
      by (simp add: load_model_with_retry_def backoff_trace_two)
    with get_model_cold [OF cold1, of w2] show ?thesis by simp
  qed
  have recovers: "fst (get_model w2 ms ?s1) = Inr (Some h)"
    if "whisper_load_model w2 (loads s + 3) ms = Inr h"
  proof -
    have "load_model_with_retry w2 ms 3 ?s1 =
        (Inr (Some h), ?s1\<lparr>loads := loads ?s1 + 0 + 1,
            events := events ?s1 @ backoff_trace ms 0 0 @ [EvLoad ms]\<rparr>)"
      unfolding load_model_with_retry_def
      using that by (intro load_attempts_success) (simp_all add: add.commute)
    with get_model_cold [OF cold1, of w2] show ?thesis by simp
  qed
  from g cold1 again second recovers show ?thesis by simp
qed

theorem failed_load_leaves_entry_unset_witness:
  "get_model down ''base'' cold =
     (Inl (PyExc ''RuntimeError'' ''gave up''),
      cold\<lparr>loads := 3,
           events := [EvLoad ''base'', EvSleep 1, EvLoad ''base'', EvSleep 2, EvLoad ''base'']\<rparr>)
   \<and> map_of (models (snd (get_model down ''base'' cold))) ''base'' = Some None
   \<and> fst (get_model flaky ''base'' (snd (get_model down ''base'' cold))) = Inr (Some (Handle 7))"
proof -
  have c: "map_of (models cold) ''base'' = Some None"
    by (simp add: cold_def initial_models_def)
  have d: "whisper_load_model down (loads cold) ''base'' = Inl (PyExc ''RuntimeError'' ''timed out'')"
    "whisper_load_model down (loads cold + 1) ''base'' = Inl (PyExc ''RuntimeError'' ''timed out'')"
    "whisper_load_model down (loads cold + 2) ''base'' = Inl (PyExc ''RuntimeError'' ''gave up'')"
    by (simp_all add: down_def cold_def)
  have f: "whisper_load_model flaky (loads cold + 3) ''base'' = Inr (Handle 7)"
    by (simp add: flaky_def cold_def)
  note t = failed_load_leaves_entry_unset [OF c d, of flaky _ _ _ "Handle 7"]
  from t have "get_model down ''base'' cold =
     (Inl (PyExc ''RuntimeError'' ''gave up''),
      cold\<lparr>loads := loads cold + 3,
           events := events cold
             @ [EvLoad ''base'', EvSleep 1, EvLoad ''base'', EvSleep 2, EvLoad ''base'']\<rparr>)"
    by blast
  then have 1: "get_model down ''base'' cold =
     (Inl (PyExc ''RuntimeError'' ''gave up''),
      cold\<lparr>loads := 3,
           events := [EvLoad ''base'', EvSleep 1, EvLoad ''base'', EvSleep 2, EvLoad ''base'']\<rparr>)"
    by (simp add: cold_def)
  from t have 2: "map_of (models (snd (get_model down ''base'' cold))) ''base'' = Some None"
    by blast
  from t f have 3:
    "fst (get_model flaky ''base'' (snd (get_model down ''base'' cold))) = Inr (Some (Handle 7))"
    by blast
  from 1 2 3 show ?thesis by (intro conjI)
qed


subsection \<open>Validation, status and routes\<close>

lemma song_ext: "file_ext_of song = ''.mp3''"
  by code_simp

lemma memo_ext: "file_ext_of memo = ''.txt''"
  by code_simp

lemma model_status_lookup:
  "map_of (model_status s) n =
     map_option (\<lambda>model. if model \<noteq> None then ''loaded'' else ''not loaded'')
       (map_of (models s) n)"
  by (simp add: model_status_def map_of_map)

text \<open>
  C9.  The status route answers with a \<open>model_status\<close> entry that lists exactly the
  identifiers of the registry, in its order, and gives \<open>not loaded\<close> for an identifier
  whose entry is \<open>None\<close> and \<open>loaded\<close> for one whose entry holds a handle.  So a fresh
  process reports both models as not loaded, and after \<open>get_model\<close> has returned a
  handle for an identifier, that identifier is reported as loaded.
\<close>

theorem root_model_status:
  "map_of (root s) ''model_status'' =
      Some (PDict (map (\<lambda>(name, t). (name, PStr t)) (model_status s)))
   \<and> map fst (model_status s) = map fst (models s)
   \<and> (map_of (models s) n = Some None \<longrightarrow> map_of (model_status s) n = Some ''not loaded'')
   \<and> (map_of (models s) n = Some (Some h) \<longrightarrow> map_of (model_status s) n = Some ''loaded'')
   \<and> (models s = initial_models \<longrightarrow>
        model_status s = [(''base'', ''not loaded''), (''large'', ''not loaded'')])
   \<and> (get_model w n s = (Inr (Some h), s') \<longrightarrow> map_of (model_status s') n = Some ''loaded'')"
proof (intro conjI impI)
  show "map_of (root s) ''model_status'' =
      Some (PDict (map (\<lambda>(name, t). (name, PStr t)) (model_status s)))"
    by (simp add: root_def)
  show "map fst (model_status s) = map fst (models s)"
    by (simp add: model_status_def case_prod_unfold comp_def)
  show "map_of (model_status s) n = Some ''not loaded''" if "map_of (models s) n = Some None"
    using that by (simp add: model_status_lookup)
  show "map_of (model_status s) n = Some ''loaded''" if "map_of (models s) n = Some (Some h)"
    using that by (simp add: model_status_lookup)
  show "model_status s = [(''base'', ''not loaded''), (''large'', ''not loaded'')]"
    if "models s = initial_models"
    using that by (simp add: model_status_def initial_models_def)
  show "map_of (model_status s') n = Some ''loaded''" if "get_model w n s = (Inr (Some h), s')"
    using get_model_stores [OF that] by (simp add: model_status_lookup)
qed

theorem root_model_status_witness:
  "map_of (model_status cold) ''large'' = Some ''not loaded''
   \<and> map_of (model_status warm) ''base'' = Some ''loaded''
   \<and> model_status cold = [(''base'', ''not loaded''), (''large'', ''not loaded'')]
   \<and> map_of (model_status (snd (get_model flaky ''base'' cold))) ''base'' = Some ''loaded''"
proof -
  have 1: "map_of (models cold) ''large'' = Some None"
    by (simp add: cold_def initial_models_def)
  have 2: "map_of (models warm) ''base'' = Some (Some (Handle 7))"
    by (simp add: warm_def)
  have 3: "models cold = initial_models"
    by (simp add: cold_def)
  have 4: "get_model flaky ''base'' cold =
      (Inr (Some (Handle 7)), snd (get_model flaky ''base'' cold))"
    by (simp add: flaky_get_model)
  from root_model_status [of cold "''large''"] 1 3
  have "map_of (model_status cold) ''large'' = Some ''not loaded''"
    and "model_status cold = [(''base'', ''not loaded''), (''large'', ''not loaded'')]"
    by blast+
  moreover from root_model_status [of warm "''base''" "Handle 7"] 2
  have "map_of (model_status warm) ''base'' = Some ''loaded''"
    by blast
  moreover from root_model_status [of cold "''base''" "Handle 7" flaky] 4
  have "map_of (model_status (snd (get_model flaky ''base'' cold))) ''base'' = Some ''loaded''"
    by blast
  ultimately show ?thesis by (intro conjI)
qed

text \<open>
  C5.  An upload whose extension, as \<open>os.path.splitext\<close> finds it and lowered, is not
  one of the three allowed ones is answered with status 400 and the state is exactly
  what it was: the registry is not consulted, the loader is not called and no file is
  created.  With a model identifier of the registry, which is all the routes pass, the
  answer is the rejection of the file type.
\<close>

theorem unsupported_type_rejected_first:
  assumes "file_ext_of f \<notin> set allowed_extensions"
  shows "(\<exists>detail. process_audio w (Some f) ms s = (Inl (HTTPException 400 detail), s))
     \<and> (ms \<in> set (map fst (models s)) \<longrightarrow>
          process_audio w (Some f) ms s = (Inl unsupported_file_type, s))"
proof (intro conjI impI)
  show "\<exists>detail. process_audio w (Some f) ms s = (Inl (HTTPException 400 detail), s)"
  proof (cases "ms \<in> set (map fst (models s))")
    case True
    from path_bad_type [OF True assms] show ?thesis
      by (simp add: unsupported_file_type_def)
  next
    case False
    from path_invalid_model [OF False] show ?thesis
      by (simp add: invalid_model_def)
  qed
  show "process_audio w (Some f) ms s = (Inl unsupported_file_type, s)"
    if "ms \<in> set (map fst (models s))"
    using that assms by (rule path_bad_type)
qed

theorem unsupported_type_rejected_first_witness:
  "file_ext_of memo \<notin> set allowed_extensions
   \<and> process_audio flaky (Some memo) ''base'' cold = (Inl unsupported_file_type, cold)"
proof -
  have 1: "file_ext_of memo \<notin> set allowed_extensions"
    by (simp add: memo_ext allowed_extensions_def)
  have 2: "''base'' \<in> set (map fst (models cold))"
    by (simp add: cold_def initial_models_def)
  from unsupported_type_rejected_first [OF 1, of flaky "''base''" cold] 2
  have "process_audio flaky (Some memo) ''base'' cold = (Inl unsupported_file_type, cold)"
    by blast
  with 1 show ?thesis by (intro conjI)
qed

text \<open>
  The extension is compared without regard to case: the upper-case name of the concrete
  upload passes the check.
\<close>

lemma song_accepted: "file_ext_of song \<in> set allowed_extensions"
  by (simp add: song_ext allowed_extensions_def)


lemma reachable_keys: "reachable s \<Longrightarrow> map fst (models s) = [''base'', ''large'']"
proof (induction rule: reachable.induct)
  case (start s)
  then show ?case by (simp add: initial_models_def)
next
  case (fast s w upl)
  obtain r s' where p: "process_audio w upl ''base'' s = (r, s')"
    by (cases "process_audio w upl ''base'' s")
  from process_audio_registry(1) [OF p] fast.IH p show ?case
    by (simp add: transcribe_audio_fast_def)
next
  case (accurate s w upl)
  obtain r s' where p: "process_audio w upl ''large'' s = (r, s')"
    by (cases "process_audio w upl ''large'' s")
  from process_audio_registry(1) [OF p] accurate.IH p show ?case
    by (simp add: transcribe_audio_accurate_def)
qed

lemma known_model_not_refused:
  assumes "ms \<in> set (map fst (models s))"
  shows "fst (process_audio w upl ms s) \<noteq> Inl (invalid_model s)"
proof -
  obtain r s' where p: "process_audio w upl ms s = (r, s')"
    by (cases "process_audio w upl ms s")
  from p have "r \<noteq> Inl (invalid_model s)"
  proof (cases rule: process_audio_cases)
    case rejected
    with assms show ?thesis
      by (auto simp add: no_file_def unsupported_file_type_def invalid_model_def)
  next
    case (not_created rg e)
    then show ?thesis by (simp add: invalid_model_def)
  next
    case (created m s1 name tr)
    then show ?thesis by simp
  next
    case (cancelled m s1 name)
    then show ?thesis by (simp add: invalid_model_def)
  qed
  with p show ?thesis by simp
qed

text \<open>
  C10.  In every state the process can reach, \<open>base\<close> and \<open>large\<close> are keys of the
  registry, so neither POST route can end in the rejection of the model identifier.
\<close>

theorem invalid_model_unreachable:
  assumes "reachable s"
  shows "''base'' \<in> set (map fst (models s)) \<and> ''large'' \<in> set (map fst (models s))
     \<and> fst (transcribe_audio_fast w upl s) \<noteq> Inl (invalid_model s)
     \<and> fst (transcribe_audio_accurate w upl s) \<noteq> Inl (invalid_model s)"
proof -
  from reachable_keys [OF assms]
  have b: "''base'' \<in> set (map fst (models s))" and l: "''large'' \<in> set (map fst (models s))"
    by simp_all
  from b l known_model_not_refused [OF b, of w upl] known_model_not_refused [OF l, of w upl]
  show ?thesis
    by (simp add: transcribe_audio_fast_def transcribe_audio_accurate_def)
qed

theorem invalid_model_unreachable_witness:
  "reachable (snd (transcribe_audio_fast flaky (Some song) cold))
   \<and> ''large'' \<in> set (map fst (models (snd (transcribe_audio_fast flaky (Some song) cold))))
   \<and> fst (transcribe_audio_accurate down (Some memo)
            (snd (transcribe_audio_fast flaky (Some song) cold)))
       \<noteq> Inl (invalid_model (snd (transcribe_audio_fast flaky (Some song) cold)))"
proof -
  let ?s = "snd (transcribe_audio_fast flaky (Some song) cold)"
  have "reachable cold"
    by (rule reachable.start) (simp add: cold_def)
  then have r: "reachable ?s"
    by (rule reachable.fast)
  from invalid_model_unreachable [OF r, of down "Some memo"] r show ?thesis
    by blast
qed


subsection \<open>The scratch file\<close>

lemma nan_get_model:
  "get_model nan_world ''base'' cold =
     (Inr (Some (Handle 7)),
      cold\<lparr>models := [(''base'', Some (Handle 7)), (''large'', None)],
           loads := 1, events := [EvLoad ''base'']\<rparr>)"
proof -
  have "map_of (models cold) ''base'' = Some None"
    by (simp add: cold_def initial_models_def)
  moreover have "load_model_with_retry nan_world ''base'' 3 cold =
      (Inr (Some (Handle 7)), cold\<lparr>loads := 1, events := [EvLoad ''base'']\<rparr>)"
    using load_attempts_success [of 0 0 3 nan_world cold "''base''" "Handle 7"]
    by (simp add: load_model_with_retry_def nan_world_def cold_def)
  ultimately show ?thesis
    using get_model_cold [of cold "''base''" nan_world]
    by (simp add: cold_def initial_models_def)
qed

lemma base_known: "''base'' \<in> set (map fst (models cold))" "''base'' \<in> set (map fst (models warm))"
  by (simp_all add: cold_def warm_def initial_models_def)

lemma warm_get_model: "get_model w ''base'' warm = (Inr (Some (Handle 7)), warm)"
  by (rule get_model_hot) (simp add: warm_def)

lemma stalled_ext: "file_ext_of stalled = ''.wav''"
  by code_simp

lemma stalled_accepted: "file_ext_of stalled \<in> set allowed_extensions"
  by (simp add: stalled_ext allowed_extensions_def)

text \<open>The request whose transcription holds a float that is not a number.\<close>

lemma nan_run:
  "process_audio nan_world (Some song) ''base'' cold =
     (Inl (Uncaught (file_not_found ''/tmp/tmpab12.mp3'')),
      cold\<lparr>models := [(''base'', Some (Handle 7)), (''large'', None)],
           loads := 1,
           events := [EvLoad ''base'', EvCreate ''/tmp/tmpab12.mp3'',
                      EvTranscribe (Some (Handle 7)) ''/tmp/tmpab12.mp3'',
                      EvUnlink ''/tmp/tmpab12.mp3'', EvUnlink ''/tmp/tmpab12.mp3'']\<rparr>)"
proof -
  have t: "transcribe nan_world (Some (Handle 7)) (''/tmp/tmpab12'' @ file_ext_of song) cold =
      (Inr nan_transcript,
       cold\<lparr>events := events cold
         @ [EvTranscribe (Some (Handle 7)) (''/tmp/tmpab12'' @ file_ext_of song)]\<rparr>)"
    by (simp add: transcribe_Some nan_world_def)
  have b: "build_response nan_world nan_transcript = Inl out_of_range"
    by (simp add: build_response_def subscript_def nan_transcript_def new_JSONResponse_def
        nan_world_def)
  from path_transcribed [OF base_known(1) song_accepted nan_get_model _ _ _ t, of "''RIFF''"] b
  show ?thesis
    by (simp add: nan_world_def song_def song_ext [unfolded song_def] cold_def)
qed

text \<open>The request that is served after two failed attempts to load the model.\<close>

lemma flaky_run:
  "process_audio flaky (Some song) ''base'' cold =
     (Inr (JSONResponse 200
        (PDict [(''text'', PStr ''hello''),
                (''segments'',
                   PList [PDict [(''start'', PFloat (Finite 0 0)),
                                 (''end'', PFloat (Finite 3 (- 1))),
                                 (''text'', PStr ''hello'')]])])),
      cold\<lparr>models := [(''base'', Some (Handle 7)), (''large'', None)],
           loads := 3,
           events := [EvLoad ''base'', EvSleep 1, EvLoad ''base'', EvSleep 2, EvLoad ''base'',
                      EvCreate ''/tmp/tmpab12.mp3'',
                      EvTranscribe (Some (Handle 7)) ''/tmp/tmpab12.mp3'',
                      EvUnlink ''/tmp/tmpab12.mp3'']\<rparr>)"
proof -
  have t: "transcribe flaky (Some (Handle 7)) (''/tmp/tmpab12'' @ file_ext_of song) cold =
      (Inr transcript,
       cold\<lparr>events := events cold
         @ [EvTranscribe (Some (Handle 7)) (''/tmp/tmpab12'' @ file_ext_of song)]\<rparr>)"
    by (simp add: transcribe_Some flaky_def)
  have b: "build_response flaky transcript =
      Inr (JSONResponse 200
        (PDict [(''text'', PStr ''hello''),
                (''segments'',
                   PList [PDict [(''start'', PFloat (Finite 0 0)),
                                 (''end'', PFloat (Finite 3 (- 1))),
                                 (''text'', PStr ''hello'')]])]))"
    by (simp add: build_response_def subscript_def transcript_def new_JSONResponse_def flaky_def)
  from path_transcribed [OF base_known(1) song_accepted flaky_get_model _ _ _ t, of "''RIFF''"] b
  show ?thesis
    by (simp add: flaky_def song_def song_ext [unfolded song_def] cold_def)
qed

text \<open>The request whose task is cancelled while it reads the upload.\<close>

lemma stalled_run:
  "process_audio flaky (Some stalled) ''base'' warm =
     (Inl Cancelled,
      warm\<lparr>fs := {''/tmp/tmpab12.wav''}, events := [EvCreate ''/tmp/tmpab12.wav'']\<rparr>)"
  using path_read_cancelled [OF base_known(2) stalled_accepted warm_get_model, of flaky
      "''/tmp/tmpab12''"]
  by (simp add: flaky_def stalled_def stalled_ext [unfolded stalled_def] warm_def)

text \<open>
  What one request adds to the trace: nothing at all for a rejected request; calls of the
  loader and sleeps only, when no file comes to exist; the creation of one file, followed
  by at most the transcription and by calls of \<open>os.unlink\<close> on that file; or, when the
  task is cancelled, the creation of one file and nothing after it.
\<close>

lemma process_audio_trace:
  assumes "process_audio w upl ms s = (r, s')"
  obtains tr where "events s' = events s @ tr"
      and "\<forall>p. EvCreate p \<notin> set tr" and "\<forall>p. EvUnlink p \<notin> set tr" and "fs s' = fs s"
      and "r \<noteq> Inl Cancelled"
  | tr0 name tr where "events s' = events s @ tr0 @ EvCreate name # tr"
      and "\<forall>p. EvCreate p \<notin> set tr0" and "\<forall>p. EvUnlink p \<notin> set tr0"
      and "\<forall>p. EvCreate p \<notin> set tr" and "\<forall>p. p \<noteq> name \<longrightarrow> EvUnlink p \<notin> set tr"
      and "count_list tr (EvUnlink name) =
             (if r = Inl (Uncaught (file_not_found name)) then 2 else 1)"
      and "name \<notin> fs s'" and "r \<noteq> Inl Cancelled"
  | tr0 name where "events s' = events s @ tr0 @ [EvCreate name]"
      and "\<forall>p. EvCreate p \<notin> set tr0" and "\<forall>p. EvUnlink p \<notin> set tr0"
      and "name \<in> fs s'" and "r = Inl Cancelled"
  using assms
proof (cases rule: process_audio_cases)
  case rejected
  then show ?thesis
    by (intro that(1) [of "[]"])
      (auto simp add: invalid_model_def no_file_def unsupported_file_type_def)
next
  case (not_created rg e)
  from get_model_frame [OF not_created(2)] obtain tr where "fs s' = fs s"
    and "events s' = events s @ tr"
    and "\<forall>p. EvCreate p \<notin> set tr" and "\<forall>p. EvUnlink p \<notin> set tr"
    by blast
  with not_created(3) show ?thesis by (intro that(1) [of tr]) simp_all
next
  case (created m s1 name tr)
  from get_model_frame [OF created(2)] obtain tr0 where "events s1 = events s @ tr0"
    and "\<forall>p. EvCreate p \<notin> set tr0" and "\<forall>p. EvUnlink p \<notin> set tr0"
    by blast
  moreover have "\<forall>p. EvCreate p \<notin> set tr" and "\<forall>p. p \<noteq> name \<longrightarrow> EvUnlink p \<notin> set tr"
    using created(4) by auto
  moreover have "name \<notin> fs s'" and "events s' = events s1 @ EvCreate name # tr"
    using created(3) by simp_all
  ultimately show ?thesis
    using created(6,7) by (intro that(2) [of tr0 name tr]) simp_all
next
  case (cancelled m s1 name)
  from get_model_frame [OF cancelled(2)] obtain tr0 where "events s1 = events s @ tr0"
    and "\<forall>p. EvCreate p \<notin> set tr0" and "\<forall>p. EvUnlink p \<notin> set tr0"
    by blast
  moreover have "name \<in> fs s'" and "events s' = events s1 @ [EvCreate name]"
    using cancelled(3) by simp_all
  ultimately show ?thesis
    using cancelled(4) by (intro that(3) [of tr0 name]) simp_all
qed

text \<open>
  On every path on which the task is not cancelled, a scratch file that the request has
  created does not exist when \<open>process_audio\<close> ends, whether it ends with a response,
  with an \<open>HTTPException\<close> or with another instance of \<open>Exception\<close>.
\<close>

lemma scratch_file_removed_unless_cancelled:
  assumes "process_audio w upl ms s = (r, s')" and "r \<noteq> Inl Cancelled"
    and "events s' = events s @ tr" and "EvCreate p \<in> set tr"
  shows "p \<notin> fs s'"
  using assms(1)
proof (cases rule: process_audio_trace)
  case (1 tr1)
  with assms(3,4) show ?thesis by simp
next
  case (2 tr0 name tr2)
  with assms(3) have "tr = tr0 @ EvCreate name # tr2" by simp
  with assms(4) 2(2,4) have "p = name" by auto
  with 2(7) show ?thesis by simp
next
  case (3 tr0 name)
  with assms(2) show ?thesis by simp
qed


text \<open>
  The file is never removed when it was not created.  When it was created, \<open>os.unlink\<close>
  is called on it exactly once on every path but two: not at all when the task is
  cancelled, and twice when the response cannot be built after the file has been removed,
  because the \<open>except\<close> clause then calls \<open>os.unlink\<close> again.
\<close>

lemma release_count:
  assumes "process_audio w upl ms s = (r, s')" and "events s' = events s @ tr"
  shows "(\<forall>p. EvCreate p \<notin> set tr) \<longrightarrow> (\<forall>p. EvUnlink p \<notin> set tr)"
    and "EvCreate p \<in> set tr \<Longrightarrow>
         count_list tr (EvUnlink p) =
           (if r = Inl Cancelled then 0
            else if r = Inl (Uncaught (file_not_found p)) then 2 else 1)"
  using assms(1)
proof (atomize (full), cases rule: process_audio_trace)
  case (1 tr1)
  with assms(2) show "((\<forall>p. EvCreate p \<notin> set tr) \<longrightarrow> (\<forall>p. EvUnlink p \<notin> set tr)) \<and>
    (EvCreate p \<in> set tr \<longrightarrow>
      count_list tr (EvUnlink p) =
        (if r = Inl Cancelled then 0
         else if r = Inl (Uncaught (file_not_found p)) then 2 else 1))"
    by simp
next
  case (2 tr0 name tr2)
  with assms(2) have tr: "tr = tr0 @ EvCreate name # tr2" by simp
  have "count_list tr0 (EvUnlink name) = 0"
    using 2(3) by (simp add: count_list_0_iff)
  with tr 2(6) have "count_list tr (EvUnlink name) =
      (if r = Inl (Uncaught (file_not_found name)) then 2 else 1)"
    by simp
  moreover have "p = name" if "EvCreate p \<in> set tr"
    using that tr 2(2,4) by auto
  ultimately show "((\<forall>p. EvCreate p \<notin> set tr) \<longrightarrow> (\<forall>p. EvUnlink p \<notin> set tr)) \<and>
    (EvCreate p \<in> set tr \<longrightarrow>
      count_list tr (EvUnlink p) =
        (if r = Inl Cancelled then 0
         else if r = Inl (Uncaught (file_not_found p)) then 2 else 1))"
    using tr 2(8) by auto
next
  case (3 tr0 name)
  with assms(2) have tr: "tr = tr0 @ [EvCreate name]" by simp
  have "count_list tr0 (EvUnlink q) = 0" for q
    using 3(3) by (simp add: count_list_0_iff)
  with tr have "count_list tr (EvUnlink q) = 0" for q
    by simp
  with tr 3(5) show "((\<forall>p. EvCreate p \<notin> set tr) \<longrightarrow> (\<forall>p. EvUnlink p \<notin> set tr)) \<and>
    (EvCreate p \<in> set tr \<longrightarrow>
      count_list tr (EvUnlink p) =
        (if r = Inl Cancelled then 0
         else if r = Inl (Uncaught (file_not_found p)) then 2 else 1))"
    by auto
qed

text \<open>
  C6.  The claim that the file is released exactly once fails on the code: for the request
  whose transcription cannot be rendered, the file is created once and \<open>os.unlink\<close> is
  called on it twice.  The second call finds no file, and its \<open>FileNotFoundError\<close>
  leaves the handler instead of the \<open>HTTPException\<close>.
\<close>

theorem release_twice_when_response_fails:
  "model_transcribe nan_world (Handle 7) ''/tmp/tmpab12.mp3'' = Inr nan_transcript
   \<and> unlink_calls ''/tmp/tmpab12.mp3'' cold = 0
   \<and> unlink_calls ''/tmp/tmpab12.mp3''
        (snd (process_audio nan_world (Some song) ''base'' cold)) = 2
   \<and> count_list (events (snd (process_audio nan_world (Some song) ''base'' cold)))
        (EvCreate ''/tmp/tmpab12.mp3'') = 1
   \<and> fst (process_audio nan_world (Some song) ''base'' cold) =
        Inl (Uncaught (PyExc ''FileNotFoundError''
          (''[Errno 2] No such file or directory: '' @ [CHR 0x27] @ ''/tmp/tmpab12.mp3''
             @ [CHR 0x27])))"
  by (simp add: nan_run unlink_calls_def file_not_found_def) (simp add: nan_world_def cold_def)


subsection \<open>Errors and responses\<close>

text \<open>
  C7.  As the claim states it, for any error raised while the upload is stored, it fails:
  a \<open>CancelledError\<close> thrown into \<open>await file.read()\<close> is not matched by
  \<open>except Exception\<close> and leaves the handler as it is (see the counterexample below).
  What holds: for a request that passes the three checks, an instance of \<open>Exception\<close>
  raised by \<open>get_model\<close>, by the creation of the temporary file, by reading the upload,
  by writing the file or by the model's \<open>transcribe\<close> ends \<open>process_audio\<close> with an
  \<open>HTTPException\<close> of status 500 whose detail is \<open>str(e)\<close> of that exception.  A
  request that fails a check ends with status 400.
\<close>

theorem errors_surface_as_500:
  "(ms \<in> set (map fst (models s)) \<and> file_ext_of f \<in> set allowed_extensions \<longrightarrow>
      (get_model w ms s = (Inl e, s1) \<longrightarrow>
         fst (process_audio w (Some f) ms s) = Inl (HTTPException 500 (str_of e)))
    \<and> (get_model w ms s = (Inr m, s1) \<and> tempfile_name w = Inl e \<longrightarrow>
         fst (process_audio w (Some f) ms s) = Inl (HTTPException 500 (str_of e)))
    \<and> (get_model w ms s = (Inr m, s1) \<and> tempfile_name w = Inr stem
          \<and> read_result f = Inl (Raised e) \<longrightarrow>
         fst (process_audio w (Some f) ms s) = Inl (HTTPException 500 (str_of e)))
    \<and> (get_model w ms s = (Inr m, s1) \<and> tempfile_name w = Inr stem
          \<and> read_result f = Inr b \<and> write_error w = Some e \<longrightarrow>
         fst (process_audio w (Some f) ms s) = Inl (HTTPException 500 (str_of e)))
    \<and> (get_model w ms s = (Inr (Some h), s1) \<and> tempfile_name w = Inr stem
          \<and> read_result f = Inr b \<and> write_error w = None
          \<and> model_transcribe w h (stem @ file_ext_of f) = Inl e \<longrightarrow>
         fst (process_audio w (Some f) ms s) = Inl (HTTPException 500 (str_of e))))
   \<and> (ms \<notin> set (map fst (models s)) \<or> upl = None
        \<or> (\<exists>g. upl = Some g \<and> file_ext_of g \<notin> set allowed_extensions) \<longrightarrow>
       (\<exists>detail. fst (process_audio w upl ms s) = Inl (HTTPException 400 detail)))"
proof (intro conjI impI; (elim conjE)?)
  assume v: "ms \<in> set (map fst (models s))" "file_ext_of f \<in> set allowed_extensions"
  show "fst (process_audio w (Some f) ms s) = Inl (HTTPException 500 (str_of e))"
    if "get_model w ms s = (Inl e, s1)"
    using path_acquire_failed [OF v that] by simp
  show "fst (process_audio w (Some f) ms s) = Inl (HTTPException 500 (str_of e))"
    if "get_model w ms s = (Inr m, s1)" and "tempfile_name w = Inl e"
    using path_create_failed [OF v that] by simp
  show "fst (process_audio w (Some f) ms s) = Inl (HTTPException 500 (str_of e))"
    if "get_model w ms s = (Inr m, s1)" and "tempfile_name w = Inr stem"
      and "read_result f = Inl (Raised e)"
    using path_read_failed [OF v that] by simp
  show "fst (process_audio w (Some f) ms s) = Inl (HTTPException 500 (str_of e))"
    if "get_model w ms s = (Inr m, s1)" and "tempfile_name w = Inr stem"
      and "read_result f = Inr b" and "write_error w = Some e"
    using path_write_failed [OF v that] by simp
  show "fst (process_audio w (Some f) ms s) = Inl (HTTPException 500 (str_of e))"
    if g: "get_model w ms s = (Inr (Some h), s1)" and t: "tempfile_name w = Inr stem"
      and r: "read_result f = Inr b" and wr: "write_error w = None"
      and m: "model_transcribe w h (stem @ file_ext_of f) = Inl e"
  proof -
    have "transcribe w (Some h) (stem @ file_ext_of f) s1 =
        (Inl e, s1\<lparr>events := events s1 @ [EvTranscribe (Some h) (stem @ file_ext_of f)]\<rparr>)"
      by (simp add: transcribe_Some m)
    from path_transcribe_failed [OF v g t r wr this] show ?thesis by simp
  qed
next
  assume bad: "ms \<notin> set (map fst (models s)) \<or> upl = None
        \<or> (\<exists>g. upl = Some g \<and> file_ext_of g \<notin> set allowed_extensions)"
  show "\<exists>detail. fst (process_audio w upl ms s) = Inl (HTTPException 400 detail)"
  proof (cases "ms \<in> set (map fst (models s))")
    case False
    then show ?thesis by (simp add: path_invalid_model invalid_model_def)
  next
    case True
    with bad consider "upl = None"
      | g where "upl = Some g" and "file_ext_of g \<notin> set allowed_extensions"
      by blast
    then show ?thesis
    proof cases
      case 1
      with True show ?thesis by (simp add: path_no_file no_file_def)
    next
      case 2
      with True show ?thesis by (simp add: path_bad_type unsupported_file_type_def)
    qed
  qed
qed

theorem errors_surface_as_500_witness:
  "fst (process_audio down (Some song) ''base'' cold) = Inl (HTTPException 500 ''gave up'')
   \<and> fst (process_audio (flaky\<lparr>tempfile_name := Inl (PyExc ''OSError'' ''disk full'')\<rparr>)
            (Some song) ''base'' warm) = Inl (HTTPException 500 ''disk full'')
   \<and> fst (process_audio flaky
            (Some (song\<lparr>read_result := Inl (Raised (PyExc ''ValueError'' ''closed file''))\<rparr>))
            ''base'' warm) = Inl (HTTPException 500 ''closed file'')
   \<and> fst (process_audio (flaky\<lparr>write_error := Some (PyExc ''OSError'' ''quota'')\<rparr>)
            (Some song) ''base'' warm) = Inl (HTTPException 500 ''quota'')
   \<and> fst (process_audio
            (flaky\<lparr>model_transcribe :=
               \<lambda>h path. Inl (PyExc ''RuntimeError'' ''out of memory'')\<rparr>)
            (Some song) ''base'' warm) = Inl (HTTPException 500 ''out of memory'')
   \<and> (\<exists>detail. fst (process_audio flaky (Some memo) ''base'' cold)
         = Inl (HTTPException 400 detail))"
proof (intro conjI)
  note k = base_known and a = song_accepted
  show "fst (process_audio down (Some song) ''base'' cold) = Inl (HTTPException 500 ''gave up'')"
    using errors_surface_as_500
      [of "''base''" cold song down "PyExc ''RuntimeError'' ''gave up''"] k(1) a down_get_model
    by simp
  let ?w1 = "flaky\<lparr>tempfile_name := Inl (PyExc ''OSError'' ''disk full'')\<rparr>"
  show "fst (process_audio ?w1 (Some song) ''base'' warm) = Inl (HTTPException 500 ''disk full'')"
    using errors_surface_as_500
      [of "''base''" warm song ?w1 "PyExc ''OSError'' ''disk full''" warm "Some (Handle 7)"]
      k(2) a warm_get_model [of ?w1]
    by simp
  let ?f = "song\<lparr>read_result := Inl (Raised (PyExc ''ValueError'' ''closed file''))\<rparr>"
  have af: "file_ext_of ?f \<in> set allowed_extensions"
    using a by (simp add: file_ext_of_def song_def)
  show "fst (process_audio flaky (Some ?f) ''base'' warm) = Inl (HTTPException 500 ''closed file'')"
    using errors_surface_as_500
      [of "''base''" warm ?f flaky "PyExc ''ValueError'' ''closed file''" warm "Some (Handle 7)"
        "''/tmp/tmpab12''"]
      k(2) af warm_get_model [of flaky]
    by (simp add: flaky_def)
  let ?w2 = "flaky\<lparr>write_error := Some (PyExc ''OSError'' ''quota'')\<rparr>"
  show "fst (process_audio ?w2 (Some song) ''base'' warm) = Inl (HTTPException 500 ''quota'')"
    using errors_surface_as_500
      [of "''base''" warm song ?w2 "PyExc ''OSError'' ''quota''" warm "Some (Handle 7)"
        "''/tmp/tmpab12''" "''RIFF''"]
      k(2) a warm_get_model [of ?w2]
    by (simp add: flaky_def song_def)
  let ?w3 = "flaky\<lparr>model_transcribe :=
               \<lambda>h path. Inl (PyExc ''RuntimeError'' ''out of memory'')\<rparr>"
  show "fst (process_audio ?w3 (Some song) ''base'' warm) =
      Inl (HTTPException 500 ''out of memory'')"
    using errors_surface_as_500
      [of "''base''" warm song ?w3 "PyExc ''RuntimeError'' ''out of memory''" warm _
        "''/tmp/tmpab12''" "''RIFF''" "Handle 7"]
      k(2) a warm_get_model [of ?w3]
    by (simp add: flaky_def song_def)
  have "file_ext_of memo \<notin> set allowed_extensions"
    by (simp add: memo_ext allowed_extensions_def)
  then show "\<exists>detail. fst (process_audio flaky (Some memo) ''base'' cold)
         = Inl (HTTPException 400 detail)"
    using errors_surface_as_500 [of "''base''" cold _ flaky _ _ _ _ _ _ "Some memo"]
    by blast
qed

theorem cancelled_read_not_surfaced_counterexample:
  "''base'' \<in> set (map fst (models warm))
   \<and> file_ext_of stalled \<in> set allowed_extensions
   \<and> get_model flaky ''base'' warm = (Inr (Some (Handle 7)), warm)
   \<and> tempfile_name flaky = Inr ''/tmp/tmpab12''
   \<and> read_result stalled = Inl CancelledError
   \<and> fst (process_audio flaky (Some stalled) ''base'' warm) = Inl Cancelled"
  by (simp add: stalled_run stalled_accepted warm_get_model)
    (simp add: flaky_def stalled_def warm_def)

text \<open>
  C8.  As the claim states it, for every successful \<open>transcribe\<close>, it fails: the response
  class refuses a float that is not finite (see the counterexample below).  What holds:
  when \<open>transcribe\<close> returns a result with a \<open>text\<close> and a \<open>segments\<close> entry and
  the encoder of the response class accepts the dictionary of the two, that is, it meets
  no float that is not finite, no int beyond the interpreter's digit limit and no nesting
  beyond its recursion budget, \<open>process_audio\<close> answers with status 200 and a body of
  exactly these two entries, with the values as the model returned them.
\<close>

theorem transcription_returned_verbatim:
  assumes "ms \<in> set (map fst (models s))" and "file_ext_of f \<in> set allowed_extensions"
    and "get_model w ms s = (Inr (Some h), s1)" and "tempfile_name w = Inr stem"
    and "read_result f = Inr b" and "write_error w = None"
    and "model_transcribe w h (stem @ file_ext_of f) = Inr result"
    and "map_of result ''text'' = Some t" and "map_of result ''segments'' = Some g"
    and "encode_error (int_max_str_digits w) (recursion_budget w)
           (PDict [(''text'', t), (''segments'', g)]) = None"
  shows "fst (process_audio w (Some f) ms s) =
           Inr (JSONResponse 200 (PDict [(''text'', t), (''segments'', g)]))"
proof -
  have "transcribe w (Some h) (stem @ file_ext_of f) s1 =
      (Inr result, s1\<lparr>events := events s1 @ [EvTranscribe (Some h) (stem @ file_ext_of f)]\<rparr>)"
    by (simp add: transcribe_Some assms(7))
  note p = path_transcribed [OF assms(1-6) this]
  have "build_response w result =
      Inr (JSONResponse 200 (PDict [(''text'', t), (''segments'', g)]))"
    using assms(8-10) by (simp add: build_response_def subscript_def new_JSONResponse_def)
  with p show ?thesis by simp
qed

theorem transcription_returned_verbatim_witness:
  "model_transcribe flaky (Handle 7) (''/tmp/tmpab12'' @ file_ext_of song) = Inr transcript
   \<and> encode_error (int_max_str_digits flaky) (recursion_budget flaky)
        (PDict [(''text'', PStr ''hello''),
                (''segments'',
                   PList [PDict [(''start'', PFloat (Finite 0 0)),
                                 (''end'', PFloat (Finite 3 (- 1))),
                                 (''text'', PStr ''hello'')]])]) = None
   \<and> fst (process_audio flaky (Some song) ''base'' cold) =
     Inr (JSONResponse 200
        (PDict [(''text'', PStr ''hello''),
                (''segments'',
                   PList [PDict [(''start'', PFloat (Finite 0 0)),
                                 (''end'', PFloat (Finite 3 (- 1))),
                                 (''text'', PStr ''hello'')]])]))"
proof (intro conjI)
  show m: "model_transcribe flaky (Handle 7) (''/tmp/tmpab12'' @ file_ext_of song) = Inr transcript"
    by (simp add: flaky_def)
  show e: "encode_error (int_max_str_digits flaky) (recursion_budget flaky)
        (PDict [(''text'', PStr ''hello''),
                (''segments'',
                   PList [PDict [(''start'', PFloat (Finite 0 0)),
                                 (''end'', PFloat (Finite 3 (- 1))),
                                 (''text'', PStr ''hello'')]])]) = None"
    by (simp add: flaky_def)
  have "tempfile_name flaky = Inr ''/tmp/tmpab12''" and "read_result song = Inr ''RIFF''"
    and "write_error flaky = None"
    by (simp_all add: flaky_def song_def)
  moreover have "map_of transcript ''text'' = Some (PStr ''hello'')"
    and "map_of transcript ''segments'' =
      Some (PList [PDict [(''start'', PFloat (Finite 0 0)), (''end'', PFloat (Finite 3 (- 1))),
                          (''text'', PStr ''hello'')]])"
    by (simp_all add: transcript_def)
  ultimately show "fst (process_audio flaky (Some song) ''base'' cold) =
     Inr (JSONResponse 200
        (PDict [(''text'', PStr ''hello''),
                (''segments'',
                   PList [PDict [(''start'', PFloat (Finite 0 0)),
                                 (''end'', PFloat (Finite 3 (- 1))),
                                 (''text'', PStr ''hello'')]])]))"
    using m e by (intro transcription_returned_verbatim
        [OF base_known(1) song_accepted flaky_get_model])
qed

theorem transcription_not_returned_counterexample:
  "model_transcribe nan_world (Handle 7) ''/tmp/tmpab12.mp3'' = Inr nan_transcript
   \<and> map_of nan_transcript ''text'' = Some (PStr [])
   \<and> map_of nan_transcript ''segments'' =
        Some (PList [PDict [(''avg_logprob'', PFloat NaN), (''text'', PStr [])]])
   \<and> fst (process_audio nan_world (Some song) ''base'' cold) =
        Inl (Uncaught (file_not_found ''/tmp/tmpab12.mp3''))"
  by (simp add: nan_run) (simp add: nan_world_def nan_transcript_def)

text \<open>
  The encoder's limits at work: the int \<open>10 ^ k\<close> has \<open>k + 1\<close> digits and is refused
  under a limit of \<open>k\<close> digits or fewer (so \<open>10 ^ 4300\<close> under the usual limit of 4300),
  and a list inside a list is refused when only one container can be entered.
\<close>

lemma digits_of_length_power: "length (digits_of (10 ^ k)) = Suc k"
proof (induction k)
  case 0
  show ?case by (simp add: digits_of.simps)
next
  case (Suc k)
  have "\<not> (10::nat) ^ Suc k < 10" by simp
  then have "digits_of (10 ^ Suc k) =
      digits_of (10 ^ Suc k div 10) @ [char_of (48 + (10::nat) ^ Suc k mod 10)]"
    by (subst digits_of.simps) (simp only: if_False)
  with Suc show ?case by simp
qed

lemma long_int_refused:
  assumes "0 < limit" and "limit \<le> k"
  shows "encode_error limit d (PInt (10 ^ k)) = Some (int_too_long limit)"
proof -
  have n: "nat (10 ^ k :: int) = 10 ^ k"
    by (simp add: nat_power_eq)
  from assms show ?thesis
    by (simp add: n digits_of_length_power)
qed

lemma deep_nesting_refused: "encode_error limit 1 (PList [PList []]) = Some too_deep"
  by simp


end
